theory Spec2Isabelle
  imports Complex_Main
begin

section \<open>Tensors\<close>

text \<open>
  The trainer of \<^verbatim>\<open>src/discriminator/train.py\<close> computes with PyTorch tensors of
  floating-point numbers.  A vector is a list, a matrix a list of rows, a batch a list of
  examples.  Entries are real numbers: rounding is not part of the model.  What is proved
  below are identities between the expressions the code evaluates, values that are exact
  in floating-point arithmetic as well (an entry 0 or 1, a cross-entropy term that is
  ignored), and which computations raise, which the shapes and indices decide.
\<close>

type_synonym vec = "real list"
type_synonym mat = "real list list"

datatype error = ShapeError | IndexError | ZeroDivisionError

definition bind_err :: "error + 'a \<Rightarrow> ('a \<Rightarrow> error + 'b) \<Rightarrow> error + 'b" where
  \<comment> \<open>An exception raised by a step ends the computation with that exception.\<close>
  "bind_err r f = (case r of Inl e \<Rightarrow> Inl e | Inr x \<Rightarrow> f x)"

fun sequence_err :: "(error + 'a) list \<Rightarrow> error + 'a list" where
  "sequence_err [] = Inr []"
| "sequence_err (r # rs) =
     bind_err r (\<lambda>x. bind_err (sequence_err rs) (\<lambda>xs. Inr (x # xs)))"

definition size1 :: "'a list list \<Rightarrow> nat" where
  \<comment> \<open>\<^verbatim>\<open>t.size(1)\<close> of a non-empty two-dimensional tensor.\<close>
  "size1 m = (case m of [] \<Rightarrow> 0 | r # _ \<Rightarrow> length r)"

definition ones :: "nat \<Rightarrow> nat \<Rightarrow> mat" where
  \<comment> \<open>\<^verbatim>\<open>torch.ones(r, c)\<close>\<close>
  "ones r c = replicate r (replicate c 1)"

definition py_slice_bound :: "nat \<Rightarrow> int \<Rightarrow> nat" where
  \<comment> \<open>How Python places one bound of a slice \<^verbatim>\<open>[a:b]\<close> in a sequence of length \<open>n\<close>:
      a negative bound counts from the end, and the result is cut to \<open>0..n\<close>.\<close>
  "py_slice_bound n x = (if x < 0 then nat (max (x + int n) 0) else min (nat x) n)"

definition slice_fill :: "vec \<Rightarrow> int \<Rightarrow> int \<Rightarrow> real \<Rightarrow> vec" where
  \<comment> \<open>\<^verbatim>\<open>row[a:b] = v\<close>\<close>
  "slice_fill xs a b v =
     (let lo = py_slice_bound (length xs) a; hi = py_slice_bound (length xs) b
      in map (\<lambda>j. if lo \<le> j \<and> j < hi then v else xs ! j) [0..<length xs])"

definition t_mat :: "mat \<Rightarrow> mat" where
  \<comment> \<open>\<^verbatim>\<open>torch.t(m)\<close>: entry \<open>(j, i)\<close> of the result is entry \<open>(i, j)\<close> of \<open>m\<close>.\<close>
  "t_mat m = map (\<lambda>j. map (\<lambda>row. row ! j) m) [0..<size1 m]"

definition softmax :: "vec \<Rightarrow> vec" where
  \<comment> \<open>\<^verbatim>\<open>nn.Softmax\<close> along the positions of one example\<close>
  "softmax xs = map (\<lambda>x. exp x / sum_list (map exp xs)) xs"

definition unsqueeze_col :: "vec \<Rightarrow> mat" where
  \<comment> \<open>one example of \<^verbatim>\<open>torch.unsqueeze(t, 2)\<close>: shape \<open>(L, 1)\<close>\<close>
  "unsqueeze_col v = map (\<lambda>x. [x]) v"

definition unsqueeze_row :: "vec \<Rightarrow> mat" where
  \<comment> \<open>one example of \<^verbatim>\<open>torch.unsqueeze(t, 1)\<close>: shape \<open>(1, L)\<close>\<close>
  "unsqueeze_row v = [v]"

definition matmul :: "mat \<Rightarrow> mat \<Rightarrow> error + mat" where
  \<comment> \<open>\<^verbatim>\<open>torch.matmul\<close> of two matrices; the inner dimensions must agree.\<close>
  "matmul a b =
     (if list_all (\<lambda>row. length row = length b) a
      then Inr (map (\<lambda>row. map (\<lambda>j. \<Sum>k\<leftarrow>[0..<length b]. row ! k * b ! k ! j) [0..<size1 b]) a)
      else Inl ShapeError)"

definition diagonal :: "mat \<Rightarrow> vec" where
  \<comment> \<open>\<^verbatim>\<open>torch.diagonal\<close> of one matrix\<close>
  "diagonal m = map (\<lambda>i. m ! i ! i) [0..<min (length m) (size1 m)]"

definition clamp :: "int \<Rightarrow> int \<Rightarrow> int \<Rightarrow> int" where
  \<comment> \<open>\<^verbatim>\<open>x.clamp_(lo, hi)\<close> on one entry\<close>
  "clamp lo hi x = min (max x lo) hi"

definition argmax :: "vec \<Rightarrow> error + nat" where
  \<comment> \<open>\<^verbatim>\<open>torch.argmax\<close> along the positions of one example: the index of the first
      maximal value; there is none in an empty row.\<close>
  "argmax xs =
     (if xs = [] then Inl IndexError
      else Inr (length (takeWhile (\<lambda>x. x \<noteq> fold max xs (hd xs)) xs)))"

definition log_softmax :: "vec \<Rightarrow> vec" where
  "log_softmax xs = map (\<lambda>x. x - ln (sum_list (map exp xs))) xs"

definition cross_entropy_row :: "int \<Rightarrow> vec \<Rightarrow> int \<Rightarrow> error + real" where
  \<comment> \<open>\<^verbatim>\<open>nn.CrossEntropyLoss(ignore_index=ignored_index, reduce=False)\<close> on one example:
      an ignored target costs 0, a class outside the logits is an error.\<close>
  "cross_entropy_row ignore_index logits target =
     (if target = ignore_index then Inr 0
      else if 0 \<le> target \<and> target < int (length logits)
      then Inr (- (log_softmax logits ! nat target))
      else Inl IndexError)"

definition cross_entropy_none :: "int \<Rightarrow> mat \<Rightarrow> int list \<Rightarrow> error + vec" where
  "cross_entropy_none ignore_index logits targets =
     (if length logits \<noteq> length targets then Inl ShapeError
      else sequence_err (map2 (cross_entropy_row ignore_index) logits targets))"

section \<open>The length mask of \<^verbatim>\<open>Trainer.__init__\<close>\<close>

text \<open>
  \<^verbatim>\<open>
  self.length_mask = torch.ones(384, 384)
  for i in range(384):
    self.length_mask[i][i:i+self.length_k+1] = 0
  self.length_mask = torch.t(self.length_mask).to(self.device)
  \<close>
  The side length is 384 in \<^verbatim>\<open>train.py\<close> and 5 in \<^verbatim>\<open>test/test.py\<close>, which builds the
  mask by the same three statements; it is the parameter \<open>L\<close> here.
\<close>

definition band_rows :: "nat \<Rightarrow> int \<Rightarrow> mat" where
  "band_rows L k =
     fold (\<lambda>i m. m[i := slice_fill (m ! i) (int i) (int i + k + 1) 0]) [0..<L] (ones L L)"

definition length_mask_of :: "nat \<Rightarrow> int \<Rightarrow> mat" where
  "length_mask_of L k = t_mat (band_rows L k)"

definition init_length_mask :: "int \<Rightarrow> mat" where
  \<comment> \<open>\<^verbatim>\<open>self.length_mask\<close> as \<^verbatim>\<open>Trainer.__init__\<close> leaves it for \<^verbatim>\<open>args.length_k = k\<close>\<close>
  "init_length_mask k = length_mask_of 384 k"

section \<open>The expected-length penalty of \<^verbatim>\<open>Trainer.train\<close>\<close>

text \<open>
  \<^verbatim>\<open>
  start_logits_softmax = torch.unsqueeze(softmax(start_logits), 2)  # (batch, query_len, 1)
  end_logits_softmax = torch.unsqueeze(softmax(end_logits), 1)      # (batch, 1, query_len)
  start_end_mul = torch.transpose(torch.matmul(start_logits_softmax, end_logits_softmax), dim0=1, dim1=1)
  length_mul = torch.matmul(start_end_mul, self.length_mask)
  diag = torch.diagonal(length_mul, dim1=1, dim2=2)
  length_loss = torch.sum(diag) / batch_size
  \<close>
  \<^verbatim>\<open>torch.transpose\<close> with \<^verbatim>\<open>dim0=1, dim1=1\<close> swaps a dimension with itself and
  returns its argument.
\<close>

definition transpose_1_1 :: "mat \<Rightarrow> mat" where
  "transpose_1_1 m = m"

definition example_length_mul :: "mat \<Rightarrow> vec \<Rightarrow> vec \<Rightarrow> error + mat" where
  \<comment> \<open>one example's \<^verbatim>\<open>length_mul\<close>, from its two softmax vectors\<close>
  "example_length_mul lmask p_start p_end =
     bind_err (matmul (unsqueeze_col p_start) (unsqueeze_row p_end))
       (\<lambda>start_end_mul. matmul (transpose_1_1 start_end_mul) lmask)"

definition example_trace :: "mat \<Rightarrow> vec \<Rightarrow> vec \<Rightarrow> error + real" where
  \<comment> \<open>the sum of one example's \<^verbatim>\<open>diag\<close>\<close>
  "example_trace lmask p_start p_end =
     bind_err (example_length_mul lmask p_start p_end) (\<lambda>m. Inr (sum_list (diagonal m)))"

definition length_loss_of_probs :: "mat \<Rightarrow> mat \<Rightarrow> mat \<Rightarrow> error + real" where
  \<comment> \<open>\<^verbatim>\<open>length_loss\<close> from the softmax vectors of the batch, in exact arithmetic;
      the value the code returns is this one up to rounding\<close>
  "length_loss_of_probs lmask p_starts p_ends =
     (if length p_starts \<noteq> length p_ends then Inl ShapeError
      else bind_err (sequence_err (map2 (example_trace lmask) p_starts p_ends))
             (\<lambda>traces. Inr (sum_list traces / real (length p_starts))))"

definition length_loss :: "mat \<Rightarrow> mat \<Rightarrow> mat \<Rightarrow> error + real" where
  "length_loss lmask start_logits end_logits =
     length_loss_of_probs lmask (map softmax start_logits) (map softmax end_logits)"

definition mass_where :: "nat \<Rightarrow> (nat \<Rightarrow> nat \<Rightarrow> bool) \<Rightarrow> vec \<Rightarrow> vec \<Rightarrow> real" where
  \<comment> \<open>The probability that the product distribution of \<open>p_start\<close> and \<open>p_end\<close> gives to
      the pairs (start \<open>i\<close>, end \<open>j\<close>) of positions below \<open>L\<close> that satisfy \<open>S\<close>.\<close>
  "mass_where L S p_start p_end =
     (\<Sum>i\<leftarrow>[0..<L]. \<Sum>j\<leftarrow>[0..<L]. if S i j then p_start ! i * p_end ! j else 0)"

section \<open>The length-based weight of \<^verbatim>\<open>Trainer.train\<close>\<close>

text \<open>
  \<^verbatim>\<open>
  pred_start_index = torch.argmax(start_logits, dim=1)
  pred_end_index = torch.argmax(end_logits, dim=1)
  pred_length = pred_end_index - pred_start_index + 1
  maxed_pred_length = torch.max(pred_length, torch.ones(batch_size))
  gold_length = end_positions - start_positions + 1
  maxed_gold_length = torch.max(gold_length, torch.ones(batch_size))
  weight = torch.exp(1 - maxed_gold_length / maxed_pred_length)
  filter = pred_length > gold_length
  weight = torch.where(filter, weight, torch.ones(batch_size))
  filter = pred_length > 0
  weight = torch.where(filter, weight, torch.ones(batch_size) * 2)
  \<close>
  All of these act entry by entry on the batch; \<open>length_weight\<close> is one entry.
\<close>

definition length_weight :: "int \<Rightarrow> int \<Rightarrow> real" where
  "length_weight pred_length gold_length =
     (let maxed_pred_length = max (real_of_int pred_length) 1;
          maxed_gold_length = max (real_of_int gold_length) 1;
          weight = exp (1 - maxed_gold_length / maxed_pred_length);
          weight = (if pred_length > gold_length then weight else 1);
          weight = (if pred_length > 0 then weight else 1 * 2)
      in weight)"

definition pred_lengths :: "mat \<Rightarrow> mat \<Rightarrow> error + int list" where
  "pred_lengths start_logits end_logits =
     (if length start_logits \<noteq> length end_logits then Inl ShapeError
      else bind_err (sequence_err (map argmax start_logits)) (\<lambda>pred_start_index.
           bind_err (sequence_err (map argmax end_logits)) (\<lambda>pred_end_index.
           Inr (map2 (\<lambda>e s. int e - int s + 1) pred_end_index pred_start_index))))"

definition gold_lengths :: "int list \<Rightarrow> int list \<Rightarrow> error + int list" where
  "gold_lengths start_positions end_positions =
     (if length start_positions \<noteq> length end_positions then Inl ShapeError
      else Inr (map2 (\<lambda>e s. e - s + 1) end_positions start_positions))"

definition weights :: "mat \<Rightarrow> mat \<Rightarrow> int list \<Rightarrow> int list \<Rightarrow> error + vec" where
  "weights start_logits end_logits start_positions end_positions =
     bind_err (pred_lengths start_logits end_logits) (\<lambda>pred_length.
     bind_err (gold_lengths start_positions end_positions) (\<lambda>gold_length.
     if length pred_length \<noteq> length gold_length then Inl ShapeError
     else Inr (map2 length_weight pred_length gold_length)))"

section \<open>The reweighted span loss\<close>

text \<open>
  \<^verbatim>\<open>
  ignored_index = start_logits.size(1)
  start_positions.clamp_(0, ignored_index)
  end_positions.clamp_(0, ignored_index)
  loss_fct = nn.CrossEntropyLoss(ignore_index=ignored_index, reduce=False)
  start_loss = loss_fct(start_logits, start_positions)
  end_loss = loss_fct(end_logits, end_positions)
  loss = (start_loss + end_loss) / 2 / batch_size
  loss *= weight
  loss = torch.sum(loss)
  \<close>
  The positions are one-dimensional, so the two \<^verbatim>\<open>squeeze(-1)\<close> branches are not taken.
  The weights are computed from the positions as they are before the clamp.
\<close>

definition span_losses :: "mat \<Rightarrow> mat \<Rightarrow> int list \<Rightarrow> int list \<Rightarrow> error + (vec \<times> vec)" where
  \<comment> \<open>\<^verbatim>\<open>start_loss\<close> and \<^verbatim>\<open>end_loss\<close>\<close>
  "span_losses start_logits end_logits start_positions end_positions =
     (let ignored_index = int (size1 start_logits);
          start_positions = map (clamp 0 ignored_index) start_positions;
          end_positions = map (clamp 0 ignored_index) end_positions
      in bind_err (cross_entropy_none ignored_index start_logits start_positions) (\<lambda>start_loss.
         bind_err (cross_entropy_none ignored_index end_logits end_positions) (\<lambda>end_loss.
         Inr (start_loss, end_loss))))"

definition reweighted_span_loss ::
  "mat \<Rightarrow> mat \<Rightarrow> int list \<Rightarrow> int list \<Rightarrow> error + real" where
  "reweighted_span_loss start_logits end_logits start_positions end_positions =
     (let batch_size = length start_logits
      in bind_err (weights start_logits end_logits start_positions end_positions) (\<lambda>weight.
         bind_err (span_losses start_logits end_logits start_positions end_positions)
           (\<lambda>(start_loss, end_loss).
         if length start_loss \<noteq> length end_loss \<or> length start_loss \<noteq> length weight
         then Inl ShapeError
         else Inr (sum_list (map2 (*)
                     (map (\<lambda>x. x / 2 / real batch_size) (map2 (+) start_loss end_loss))
                     weight)))))"

section \<open>\<^verbatim>\<open>Trainer.compute_discriminator_loss\<close>\<close>

text \<open>
  \<^verbatim>\<open>
  log_prob = self.discriminator(embedding)
  targets = torch.ones_like(log_prob) * (1 / self.discriminator.num_classes)
  is_indomain_dataset = data_set_ids < 3
  log_prob = log_prob[is_indomain_dataset, :]
  if len(log_prob) == 0:
    return torch.tensor(0).to(self.device)
  kl_criterion = nn.KLDivLoss(reduction="batchmean")
  return kl_criterion(log_prob, targets)
  \<close>
  The class \<^verbatim>\<open>DomainDiscriminator\<close> is not among the sources: what it returns for the
  batch, \<open>log_prob\<close>, and its \<open>num_classes\<close> are parameters.
\<close>

definition mask_rows :: "'a list \<Rightarrow> bool list \<Rightarrow> error + 'a list" where
  \<comment> \<open>\<^verbatim>\<open>t[mask, :]\<close>: the rows where the mask holds; the mask has one entry for each row.\<close>
  "mask_rows rows keep =
     (if length keep \<noteq> length rows then Inl IndexError
      else Inr (map fst (filter snd (zip rows keep))))"

definition kl_pointwise :: "real \<Rightarrow> real \<Rightarrow> real" where
  \<comment> \<open>one entry of \<^verbatim>\<open>kl_div\<close>: input \<open>x\<close> is a log-probability, \<open>t\<close> a probability\<close>
  "kl_pointwise x t = (if t > 0 then t * (ln t - x) else 0)"

definition broadcast_rows :: "mat \<Rightarrow> mat \<Rightarrow> error + (vec \<times> vec) list" where
  \<comment> \<open>Pairs the rows of two matrices with equally long rows as broadcasting does: row by
      row when there are as many, a single row against every row of the other.\<close>
  "broadcast_rows a b =
     (if length a = length b then Inr (zip a b)
      else if length a = 1 then Inr (map (\<lambda>r. (a ! 0, r)) b)
      else if length b = 1 then Inr (map (\<lambda>r. (r, b ! 0)) a)
      else Inl ShapeError)"

definition kl_div_batchmean :: "mat \<Rightarrow> mat \<Rightarrow> error + real" where
  \<comment> \<open>\<^verbatim>\<open>nn.KLDivLoss(reduction="batchmean")(input, target)\<close>: the sum of all entries
      over the number of rows of the input, in exact arithmetic; whether it raises is as
      in the code, the value the code returns is this one up to rounding\<close>
  "kl_div_batchmean input target =
     bind_err (broadcast_rows input target) (\<lambda>pairs.
       Inr ((\<Sum>(x, t)\<leftarrow>pairs. sum_list (map2 kl_pointwise x t)) / real (length input)))"

definition compute_discriminator_loss :: "nat \<Rightarrow> mat \<Rightarrow> int list \<Rightarrow> error + real" where
  "compute_discriminator_loss num_classes log_prob data_set_ids =
     (if num_classes = 0 then Inl ZeroDivisionError
      else
        let targets = map (map (\<lambda>_. 1 * (1 / real num_classes))) log_prob;
            is_indomain_dataset = map (\<lambda>d. d < 3) data_set_ids
        in bind_err (mask_rows log_prob is_indomain_dataset) (\<lambda>log_prob.
             if length log_prob = 0 then Inr 0
             else kl_div_batchmean log_prob targets))"

section \<open>The loss of the base model\<close>

record trainer =
  enable_length_bp_penalty :: bool
  enable_length_loss :: bool
  length_mask :: mat
  length_lambda :: real
  enable_discriminator :: bool
  discriminator_lambda :: real
  num_adv_steps :: int
  num_classes :: nat

text \<open>
  \<open>qa_loss\<close> is the value of the variable \<^verbatim>\<open>loss\<close> of \<^verbatim>\<open>Trainer.train\<close> when
  \<^verbatim>\<open>loss.backward()\<close> is called.  \<open>loss0\<close> is \<^verbatim>\<open>outputs[0]\<close>, the loss the model
  computes itself.
\<close>

definition qa_loss ::
  "trainer \<Rightarrow> real \<Rightarrow> mat \<Rightarrow> mat \<Rightarrow> int list \<Rightarrow> int list \<Rightarrow> mat \<Rightarrow> int list \<Rightarrow> error + real" where
  "qa_loss tr loss0 start_logits end_logits start_positions end_positions log_prob data_set_ids =
     bind_err (if enable_length_bp_penalty tr
               then reweighted_span_loss start_logits end_logits start_positions end_positions
               else Inr loss0) (\<lambda>loss.
     bind_err (if enable_length_loss tr
               then bind_err (length_loss (length_mask tr) start_logits end_logits)
                      (\<lambda>length_loss. Inr (loss + length_lambda tr * length_loss))
               else Inr loss) (\<lambda>loss.
     if enable_discriminator tr
     then bind_err (compute_discriminator_loss (num_classes tr) log_prob data_set_ids)
            (\<lambda>d. Inr (loss + discriminator_lambda tr * d))
     else Inr loss))"

section \<open>\<^verbatim>\<open>Trainer.forward_discriminator\<close>\<close>

text \<open>
  \<^verbatim>\<open>
  log_prob = discriminator(embedding.detach())
  criterion = nn.NLLLoss()
  loss = criterion(log_prob, data_set_ids)
  return loss, log_prob
  \<close>
  As in \<open>compute_discriminator_loss\<close>, what the discriminator returns for the batch is a
  parameter.  \<^verbatim>\<open>nn.NLLLoss()\<close> averages minus the log-probability of the target class
  over the examples whose target is not its \<^verbatim>\<open>ignore_index\<close>, which is -100; a target
  that is no class is an error, and the mean over no example is not a number.  A
  floating-point loss is finite, infinite or not a number.
\<close>

datatype fval = Finite real | PosInf | NegInf | NaN

fun isnan :: "fval \<Rightarrow> bool" where
  \<comment> \<open>\<^verbatim>\<open>torch.isnan\<close>\<close>
  "isnan NaN = True"
| "isnan _ = False"

fun isfinite :: "fval \<Rightarrow> bool" where
  "isfinite (Finite _) = True"
| "isfinite _ = False"

definition nll_row :: "vec \<Rightarrow> int \<Rightarrow> error + real option" where
  "nll_row row target =
     (if target = - 100 then Inr None
      else if 0 \<le> target \<and> target < int (length row) then Inr (Some (- (row ! nat target)))
      else Inl IndexError)"

definition nll_loss :: "mat \<Rightarrow> int list \<Rightarrow> error + fval" where
  "nll_loss input targets =
     (if length input \<noteq> length targets then Inl ShapeError
      else bind_err (sequence_err (map2 nll_row input targets)) (\<lambda>terms.
             let counted = List.map_filter id terms
             in Inr (if counted = [] then NaN
                     else Finite (sum_list counted / real (length counted)))))"

definition forward_discriminator :: "mat \<Rightarrow> int list \<Rightarrow> error + (fval \<times> mat)" where
  "forward_discriminator log_prob data_set_ids =
     bind_err (nll_loss log_prob data_set_ids) (\<lambda>loss. Inr (loss, log_prob))"

section \<open>The steps of one training batch\<close>

text \<open>
  What one pass through the body of the batch loop of \<^verbatim>\<open>Trainer.train\<close> does to the two
  optimizers and to the standard output, in order, up to the exception that ends it if
  one of its loss computations raises:
  \<^verbatim>\<open>
  qa_optim.zero_grad()
  dis_optim.zero_grad()
  ...
  if self.enable_length_bp_penalty:
    ...
    loss = torch.sum(loss)
    if torch.isnan(loss):
      print('######################## loss is nan')
      ...
  if self.enable_length_loss:
    ...
  if self.enable_discriminator:
    discriminator_loss_for_qa = self.discriminator_lambda * self.compute_discriminator_loss(...)
    loss += discriminator_loss_for_qa
    loss.backward()
    qa_optim.step()
    for step in range(self.num_adv_steps):
      dis_optim.step()
      dis_optim.zero_grad()
      discriminator_loss, _ = self.forward_discriminator(...)
      discriminator_loss.backward()
      dis_optim.step()
  else:
    loss.backward()
    qa_optim.step()
  \<close>
  Whether a loss computation raises is decided by the functions above, from the shapes
  and indices of the batch.  The argument \<open>loss\<close> is the floating-point number that the
  variable \<^verbatim>\<open>loss\<close> holds when \<^verbatim>\<open>torch.isnan\<close> is called on it; \<open>dis_log_prob step\<close>
  is what the discriminator returns in iteration \<open>step\<close> of the loop.  The forward passes
  of the two networks, the backward passes and the optimizers are taken to return.
\<close>

datatype event =
    QaZeroGrad | DisZeroGrad
  | Print string
  | QaBackward | QaStep
  | DisStep | DisForward | DisBackward
  | Raise error

definition nan_report :: "string list" where
  "nan_report =
     [''######################## loss is nan'', ''weight : '', ''start_loss : '',
      ''end_loss : '', ''batch_size : '', ''maxed_pred_length : '', ''start_positions : '',
      ''end_positions : '', ''pred_length : '', ''maxed_pred_length : '', ''gold_length : '',
      ''pred_start_index : '', ''pred_end_index : '']"

fun adv_steps :: "nat \<Rightarrow> nat \<Rightarrow> (nat \<Rightarrow> mat) \<Rightarrow> int list \<Rightarrow> event list" where
  \<comment> \<open>the iterations \<open>step, step + 1, \<dots>\<close> of \<^verbatim>\<open>for step in range(self.num_adv_steps)\<close>
      that are left, \<open>n\<close> of them\<close>
  "adv_steps 0 step dis_log_prob data_set_ids = []"
| "adv_steps (Suc n) step dis_log_prob data_set_ids =
     [DisStep, DisZeroGrad]
     @ (case forward_discriminator (dis_log_prob step) data_set_ids of
          Inl e \<Rightarrow> [Raise e]
        | Inr _ \<Rightarrow> [DisForward, DisBackward, DisStep]
                   @ adv_steps n (Suc step) dis_log_prob data_set_ids)"

definition discriminator_events ::
  "trainer \<Rightarrow> mat \<Rightarrow> (nat \<Rightarrow> mat) \<Rightarrow> int list \<Rightarrow> event list" where
  "discriminator_events tr log_prob dis_log_prob data_set_ids =
     (if enable_discriminator tr
      then (case compute_discriminator_loss (num_classes tr) log_prob data_set_ids of
              Inl e \<Rightarrow> [Raise e]
            | Inr _ \<Rightarrow> [QaBackward, QaStep]
                       @ adv_steps (nat (num_adv_steps tr)) 0 dis_log_prob data_set_ids)
      else [QaBackward, QaStep])"

definition length_loss_events ::
  "trainer \<Rightarrow> mat \<Rightarrow> mat \<Rightarrow> mat \<Rightarrow> (nat \<Rightarrow> mat) \<Rightarrow> int list \<Rightarrow> event list" where
  "length_loss_events tr start_logits end_logits log_prob dis_log_prob data_set_ids =
     (if enable_length_loss tr
      then (case length_loss (length_mask tr) start_logits end_logits of
              Inl e \<Rightarrow> [Raise e]
            | Inr _ \<Rightarrow> discriminator_events tr log_prob dis_log_prob data_set_ids)
      else discriminator_events tr log_prob dis_log_prob data_set_ids)"

definition train_batch_events ::
  "trainer \<Rightarrow> fval \<Rightarrow> mat \<Rightarrow> mat \<Rightarrow> int list \<Rightarrow> int list \<Rightarrow> mat \<Rightarrow> (nat \<Rightarrow> mat) \<Rightarrow> int list
   \<Rightarrow> event list" where
  "train_batch_events tr loss start_logits end_logits start_positions end_positions
       log_prob dis_log_prob data_set_ids =
     [QaZeroGrad, DisZeroGrad]
     @ (if enable_length_bp_penalty tr
        then (case reweighted_span_loss start_logits end_logits start_positions end_positions of
                Inl e \<Rightarrow> [Raise e]
              | Inr _ \<Rightarrow>
                  (if isnan loss then map Print nan_report else [])
                  @ length_loss_events tr start_logits end_logits log_prob dis_log_prob
                      data_set_ids)
        else length_loss_events tr start_logits end_logits log_prob dis_log_prob data_set_ids)"

section \<open>Vocabulary of the statements\<close>

fun is_print :: "event \<Rightarrow> bool" where
  "is_print (Print _) = True"
| "is_print _ = False"

definition dis_iteration :: "event list" where
  \<comment> \<open>one iteration of the discriminator loop in which nothing raises\<close>
  "dis_iteration = [DisStep, DisZeroGrad, DisForward, DisBackward, DisStep]"

definition same_output :: "mat \<Rightarrow> nat \<Rightarrow> mat" where
  \<comment> \<open>a discriminator that returns \<open>m\<close> in every iteration\<close>
  "same_output m step = m"

definition zero_logits :: "nat \<Rightarrow> mat" where
  \<comment> \<open>the logits of \<open>B\<close> examples of 384 positions, all 0\<close>
  "zero_logits B = replicate B (replicate 384 0)"

definition spike_logits :: "mat" where
  \<comment> \<open>the logits of one example of 384 positions whose first two entries are so far
      apart that their difference is beyond the largest 32-bit floating-point number\<close>
  "spike_logits = [2 ^ 127 # - (2 ^ 127) # replicate 382 0]"

definition uniform_log_prob :: "nat \<Rightarrow> mat" where
  \<comment> \<open>for each of \<open>B\<close> examples the uniform log-probabilities over six domains\<close>
  "uniform_log_prob B = replicate B (replicate 6 (ln (1 / 6)))"

definition all_enabled :: "int \<Rightarrow> trainer" where
  \<comment> \<open>A trainer with the three optional losses switched on and \<open>n\<close> discriminator steps.\<close>
  "all_enabled n =
     \<lparr>enable_length_bp_penalty = True, enable_length_loss = True,
      length_mask = init_length_mask 30, length_lambda = 1,
      enable_discriminator = True, discriminator_lambda = 1 / 100,
      num_adv_steps = n, num_classes = 6\<rparr>"

text \<open>
  The weight as the specification words it: a base weight from the two clamped lengths,
  replaced by 1 when the predicted length is at most the clamped gold length, and by 2
  when the predicted length is at most 0, the last replacement winning.
\<close>

definition weight_rule :: "int \<Rightarrow> int \<Rightarrow> real" where
  "weight_rule predicted_length gold_length =
     (let clamped_pred = max predicted_length 1;
          clamped_gold = max gold_length 1;
          base = exp (1 - real_of_int clamped_gold / real_of_int clamped_pred)
      in if predicted_length \<le> 0 then 2
         else if predicted_length \<le> clamped_gold then 1
         else base)"

text \<open>
  The shapes of the tensors of one batch: \<open>B > 0\<close> examples, logits of shape \<open>(B, L)\<close>
  with \<open>L > 0\<close>, positions of shape \<open>(B)\<close>.
\<close>

definition well_shaped :: "mat \<Rightarrow> mat \<Rightarrow> int list \<Rightarrow> int list \<Rightarrow> bool" where
  "well_shaped start_logits end_logits start_positions end_positions \<longleftrightarrow>
     start_logits \<noteq> [] \<and> 0 < size1 start_logits \<and>
     length end_logits = length start_logits \<and>
     length start_positions = length start_logits \<and>
     length end_positions = length start_logits \<and>
     list_all (\<lambda>row. length row = size1 start_logits) start_logits \<and>
     list_all (\<lambda>row. length row = size1 start_logits) end_logits"

section \<open>Properties of the length mask\<close>

lemma slice_fill_length [simp]: "length (slice_fill xs a b v) = length xs"
  by (simp add: slice_fill_def Let_def)

lemma slice_fill_nth:
  assumes "j < length xs" and "0 \<le> a" and "0 \<le> b"
  shows "slice_fill xs a b v ! j =
         (if a \<le> int j \<and> int j < b then v else xs ! j)"
  using assms by (auto simp add: slice_fill_def Let_def py_slice_bound_def)

lemma band_loop_invariant:
  fixes k :: int
  assumes "n \<le> L" and "0 \<le> k"
  shows "length (fold (\<lambda>i m. m[i := slice_fill (m ! i) (int i) (int i + k + 1) 0]) [0..<n] (ones L L)) = L \<and>
         (\<forall>i<L. length (fold (\<lambda>i m. m[i := slice_fill (m ! i) (int i) (int i + k + 1) 0]) [0..<n] (ones L L) ! i) = L \<and>
            (\<forall>j<L. fold (\<lambda>i m. m[i := slice_fill (m ! i) (int i) (int i + k + 1) 0]) [0..<n] (ones L L) ! i ! j =
               (if i < n \<and> int i \<le> int j \<and> int j < int i + k + 1 then 0 else 1)))"
  using assms
proof (induction n)
  case 0
  show ?case by (simp add: ones_def)
next
  case (Suc n)
  let ?m = "fold (\<lambda>i m. m[i := slice_fill (m ! i) (int i) (int i + k + 1) 0]) [0..<n] (ones L L)"
  from Suc have ih: "length ?m = L"
    "\<And>i. i < L \<Longrightarrow> length (?m ! i) = L"
    "\<And>i j. i < L \<Longrightarrow> j < L \<Longrightarrow>
        ?m ! i ! j = (if i < n \<and> int i \<le> int j \<and> int j < int i + k + 1 then 0 else 1)"
    by simp_all
  from Suc.prems have nL: "n < L" by simp
  show ?case
  proof (intro conjI allI impI)
    show "length (fold (\<lambda>i m. m[i := slice_fill (m ! i) (int i) (int i + k + 1) 0]) [0..<Suc n] (ones L L)) = L"
      by (simp add: ih)
  next
    fix i assume "i < L"
    then show "length (fold (\<lambda>i m. m[i := slice_fill (m ! i) (int i) (int i + k + 1) 0]) [0..<Suc n] (ones L L) ! i) = L"
      using nL ih(2) [of n] ih(2) [of i] by (auto simp add: ih(1) nth_list_update)
  next
    fix i j assume ij: "i < L" "j < L"
    show "fold (\<lambda>i m. m[i := slice_fill (m ! i) (int i) (int i + k + 1) 0]) [0..<Suc n] (ones L L) ! i ! j =
       (if i < Suc n \<and> int i \<le> int j \<and> int j < int i + k + 1 then 0 else 1)"
    proof (cases "i = n")
      case True
      have "slice_fill (?m ! n) (int n) (int n + k + 1) 0 ! j =
            (if int n \<le> int j \<and> int j < int n + k + 1 then 0 else ?m ! n ! j)"
        using ij nL \<open>0 \<le> k\<close> by (intro slice_fill_nth) (simp_all add: ih)
      with True ij nL show ?thesis by (simp add: ih)
    next
      case False
      with ij nL show ?thesis by (simp add: ih less_Suc_eq)
    qed
  qed
qed

lemma band_rows_nth:
  assumes "i < L" and "j < L" and "0 \<le> k"
  shows "band_rows L k ! i ! j = (if int i \<le> int j \<and> int j \<le> int i + k then 0 else 1)"
    and "length (band_rows L k) = L" and "length (band_rows L k ! i) = L"
  using band_loop_invariant [of L L k] assms by (auto simp add: band_rows_def)

lemma band_rows_size1: "0 \<le> k \<Longrightarrow> size1 (band_rows L k) = L"
proof (cases L)
  case 0
  then show ?thesis by (simp add: band_rows_def ones_def size1_def)
next
  case (Suc n)
  assume k: "0 \<le> k"
  from Suc have "0 < L" by simp
  from band_rows_nth(2) [OF this this k] band_rows_nth(3) [OF this this k]
  show ?thesis by (cases "band_rows L k") (auto simp add: size1_def)
qed

lemma length_mask_of_nth:
  assumes "i < L" and "j < L" and "0 \<le> k"
  shows "length_mask_of L k ! i ! j = (if int j \<le> int i \<and> int i \<le> int j + k then 0 else 1)"
proof -
  have "length_mask_of L k ! i ! j = band_rows L k ! j ! i"
    using assms band_rows_nth(2) [OF assms(2) assms(1) assms(3)]
    by (simp add: length_mask_of_def t_mat_def band_rows_size1)
  then show ?thesis using band_rows_nth(1) [OF assms(2) assms(1) assms(3)] by simp
qed

lemma length_mask_of_dims:
  assumes "0 \<le> k"
  shows "length (length_mask_of L k) = L"
    and "i < L \<Longrightarrow> length (length_mask_of L k ! i) = L"
  using assms band_rows_nth(2) [of i L i k]
  by (simp_all add: length_mask_of_def t_mat_def band_rows_size1)

text \<open>
  Claim C1, as the code has it.  For every side length \<open>L\<close> and every \<open>k \<ge> 0\<close>, the length
  mask is an \<open>L \<times> L\<close> matrix whose entry \<open>(i, j)\<close> is 0 if \<open>0 \<le> i - j \<le> k\<close> and 1
  otherwise: the band lies on and below the diagonal, on one side of it only.
\<close>

theorem length_mask_one_sided_band:
  assumes "i < L" and "j < L" and "0 \<le> k"
  shows "length (length_mask_of L k) = L \<and> length (length_mask_of L k ! i) = L \<and>
         length_mask_of L k ! i ! j = (if j \<le> i \<and> int i - int j \<le> k then 0 else 1)"
proof -
  have "(int j \<le> int i \<and> int i \<le> int j + k) = (j \<le> i \<and> int i - int j \<le> k)"
    by auto
  with length_mask_of_nth [OF assms] length_mask_of_dims(1) [OF assms(3), of L]
    length_mask_of_dims(2) [OF assms(3) assms(1)]
  show ?thesis by simp
qed

theorem length_mask_one_sided_band_witness:
  "(2::nat) < 5 \<and> (1::nat) < 5 \<and> (0::int) \<le> 1 \<and>
   length (length_mask_of 5 1) = 5 \<and> length (length_mask_of 5 1 ! 2) = 5 \<and>
   length_mask_of 5 1 ! 2 ! 1 = 0"
  using length_mask_one_sided_band [of 2 5 1 1] by simp

text \<open>
  The band is not symmetric: in the mask of the trainer for \<open>k = 1\<close>, the entry \<open>(0, 1)\<close>
  is 1 although the two indices differ by 1 only.
\<close>

theorem length_mask_symmetric_counterexample:
  "init_length_mask 1 ! 0 ! 1 = 1 \<and> \<bar>(0::int) - 1\<bar> \<le> 1"
  using length_mask_of_nth [of 0 384 1 1] by (simp add: init_length_mask_def)

section \<open>Properties of the length-based weight\<close>

lemma length_weight_eq_rule: "length_weight pl gl = weight_rule pl gl"
proof (cases "0 < pl")
  case False
  then show ?thesis by (simp add: length_weight_def weight_rule_def Let_def)
next
  case pos: True
  show ?thesis
  proof (cases "gl < pl")
    case False
    with pos show ?thesis by (simp add: length_weight_def weight_rule_def Let_def max_def)
  next
    case True
    show ?thesis
    proof (cases "pl \<le> max gl 1")
      case False
      with pos True show ?thesis
        by (simp add: length_weight_def weight_rule_def Let_def max_def)
    next
      case le: True
      with pos True have "pl = 1" "gl \<le> 0" by (simp_all add: max_def split: if_splits)
      then show ?thesis by (simp add: length_weight_def weight_rule_def Let_def max_def)
    qed
  qed
qed

lemma sequence_err_map_Inr:
  assumes "\<And>x. x \<in> set xs \<Longrightarrow> f x = Inr (g x)"
  shows "sequence_err (map f xs) = Inr (map g xs)"
  using assms by (induction xs) (simp_all add: bind_err_def)

lemma argmax_Inr:
  "xs \<noteq> [] \<Longrightarrow>
   argmax xs = Inr (length (takeWhile (\<lambda>x. x \<noteq> fold max xs (hd xs)) xs))"
  by (simp add: argmax_def)

lemma weights_total:
  assumes "length start_logits = length end_logits"
    and "length start_positions = length end_positions"
    and "length start_logits = length start_positions"
    and "list_all (\<lambda>row. row \<noteq> []) start_logits"
    and "list_all (\<lambda>row. row \<noteq> []) end_logits"
  shows "\<exists>pred_length gold_length.
            pred_lengths start_logits end_logits = Inr pred_length \<and>
            gold_lengths start_positions end_positions = Inr gold_length \<and>
            length pred_length = length start_logits \<and>
            length gold_length = length start_logits \<and>
            weights start_logits end_logits start_positions end_positions =
              Inr (map2 length_weight pred_length gold_length)"
proof -
  let ?idx = "\<lambda>xs::vec. length (takeWhile (\<lambda>x. x \<noteq> fold max xs (hd xs)) xs)"
  let ?pl = "map2 (\<lambda>e s. int e - int s + 1) (map ?idx end_logits) (map ?idx start_logits)"
  let ?gl = "map2 (\<lambda>e s. e - s + 1) end_positions start_positions"
  have s: "sequence_err (map argmax start_logits) = Inr (map ?idx start_logits)"
    using assms(4) by (intro sequence_err_map_Inr argmax_Inr) (auto simp add: list_all_iff)
  have e: "sequence_err (map argmax end_logits) = Inr (map ?idx end_logits)"
    using assms(5) by (intro sequence_err_map_Inr argmax_Inr) (auto simp add: list_all_iff)
  have pl: "pred_lengths start_logits end_logits = Inr ?pl"
    using assms(1) by (simp add: pred_lengths_def s e bind_err_def)
  have gl: "gold_lengths start_positions end_positions = Inr ?gl"
    using assms(2) by (simp add: gold_lengths_def)
  have len: "length ?pl = length start_logits" "length ?gl = length start_logits"
    using assms(1,2,3) by simp_all
  have w: "weights start_logits end_logits start_positions end_positions =
      Inr (map2 length_weight ?pl ?gl)"
    using len by (simp add: weights_def pl gl bind_err_def del: map_map)
  from pl gl len w show ?thesis by blast
qed

text \<open>
  Claim C3.  For a batch whose tensors have one entry per example and whose logit rows
  are not empty, the weights are computed without an error, and the weight of each
  example is the one the three rules give for its predicted length (from the two argmax
  positions) and its gold length.  So a predicted length of at most 0 gives 2 whatever
  the gold length is; otherwise a predicted length equal to the gold length gives 1; and
  a predicted length twice a gold length of at least 1 gives \<open>exp (1/2)\<close>.
\<close>

theorem length_weight_rules:
  assumes "length start_logits = length end_logits"
    and "length start_positions = length end_positions"
    and "length start_logits = length start_positions"
    and "list_all (\<lambda>row. row \<noteq> []) start_logits"
    and "list_all (\<lambda>row. row \<noteq> []) end_logits"
  shows "(\<exists>pred_length gold_length.
            pred_lengths start_logits end_logits = Inr pred_length \<and>
            gold_lengths start_positions end_positions = Inr gold_length \<and>
            length pred_length = length start_logits \<and>
            length gold_length = length start_logits \<and>
            weights start_logits end_logits start_positions end_positions =
              Inr (map2 weight_rule pred_length gold_length)) \<and>
         (\<forall>pl gl. pl \<le> 0 \<longrightarrow> length_weight pl gl = 2) \<and>
         (\<forall>n. 0 < n \<longrightarrow> length_weight n n = 1) \<and>
         (\<forall>g. 1 \<le> g \<longrightarrow> length_weight (2 * g) g = exp (1 / 2))"
proof -
  have "length_weight = weight_rule"
    by (intro ext) (rule length_weight_eq_rule)
  with weights_total [OF assms]
  have w: "\<exists>pred_length gold_length.
            pred_lengths start_logits end_logits = Inr pred_length \<and>
            gold_lengths start_positions end_positions = Inr gold_length \<and>
            length pred_length = length start_logits \<and>
            length gold_length = length start_logits \<and>
            weights start_logits end_logits start_positions end_positions =
              Inr (map2 weight_rule pred_length gold_length)"
    by simp
  have r1: "\<forall>pl gl. pl \<le> 0 \<longrightarrow> length_weight pl gl = 2"
    by (simp add: length_weight_eq_rule weight_rule_def Let_def)
  have r2: "\<forall>n. 0 < n \<longrightarrow> length_weight n n = 1"
    by (simp add: length_weight_eq_rule weight_rule_def Let_def)
  have r3: "\<forall>g. 1 \<le> g \<longrightarrow> length_weight (2 * g) g = exp (1 / 2)"
  proof (intro allI impI)
    fix g :: int assume g: "1 \<le> g"
    then have "real_of_int g / real_of_int (2 * g) = 1 / 2" by simp
    moreover have "max g 1 = g" "max (2 * g) 1 = 2 * g" "\<not> 2 * g \<le> 0" "\<not> 2 * g \<le> g"
      using g by simp_all
    ultimately show "length_weight (2 * g) g = exp (1 / 2)"
      by (simp add: length_weight_eq_rule weight_rule_def Let_def del: of_int_mult)
  qed
  from w r1 r2 r3 show ?thesis by blast
qed

theorem length_weight_rules_witness:
  "weights [[0, 1, 0], [2, 0, 1]] [[0, 0, 3], [1, 0, 0]] [1, 0] [1, 2] =
     Inr [exp (1 / 2), 1] \<and>
   length_weight (- 1) 4 = 2 \<and> length_weight 3 3 = 1 \<and> length_weight 6 3 = exp (1 / 2)"
proof -
  have h: "length [[0, 1, 0], [2, 0, 1 :: real]] = length [[0, 0, 3], [1, 0, 0 :: real]]"
    "length [1, 0 :: int] = length [1, 2 :: int]"
    "length [[0, 1, 0], [2, 0, 1 :: real]] = length [1, 0 :: int]"
    "list_all (\<lambda>row. row \<noteq> []) [[0, 1, 0], [2, 0, 1 :: real]]"
    "list_all (\<lambda>row. row \<noteq> []) [[0, 0, 3], [1, 0, 0 :: real]]"
    by simp_all
  note rules = length_weight_rules [OF h]
  from rules have "(0::int) < 3 \<longrightarrow> length_weight 3 3 = 1"
    "(- 1 :: int) \<le> 0 \<longrightarrow> length_weight (- 1) 4 = 2"
    "(1::int) \<le> 3 \<longrightarrow> length_weight (2 * 3) 3 = exp (1 / 2)"
    by blast+
  then have cases: "length_weight (- 1) 4 = 2 \<and> length_weight 3 3 = 1 \<and>
      length_weight 6 3 = exp (1 / 2)"
    by simp
  have "weights [[0, 1, 0], [2, 0, 1]] [[0, 0, 3], [1, 0, 0]] [1, 0] [1, 2] =
     Inr [length_weight 2 1, length_weight 1 3]"
    by (simp add: weights_def pred_lengths_def gold_lengths_def argmax_def bind_err_def)
  moreover have "length_weight 2 1 = exp (1 / 2)" "length_weight 1 3 = 1"
    by (simp_all add: length_weight_def Let_def)
  ultimately show ?thesis using cases by simp
qed

section \<open>Properties of the discriminator loss\<close>

lemma mask_rows_none:
  assumes "length keep = length rows" and "\<forall>k\<in>set keep. \<not> k"
  shows "mask_rows rows keep = Inr []"
proof -
  have "filter snd (zip rows keep) = []"
    using assms(2) by (auto simp add: filter_empty_conv dest: set_zip_rightD)
  with assms(1) show ?thesis by (simp add: mask_rows_def)
qed

text \<open>
  Claim C6.  When the discriminator has at least one class and no example of the batch
  has a domain id below 3, the in-domain threshold of the code,
  \<open>compute_discriminator_loss\<close> returns 0 and raises nothing.
\<close>

theorem no_indomain_zero:
  assumes "0 < nc" and "length data_set_ids = length log_prob"
    and "\<forall>d\<in>set data_set_ids. 3 \<le> d"
  shows "compute_discriminator_loss nc log_prob data_set_ids = Inr 0"
proof -
  have "mask_rows log_prob (map (\<lambda>d. d < 3) data_set_ids) = Inr []"
    using assms(2,3) by (intro mask_rows_none) auto
  with assms(1) show ?thesis
    by (simp add: compute_discriminator_loss_def bind_err_def Let_def)
qed

theorem no_indomain_zero_witness:
  "(0::nat) < 6 \<and> length [3, 5 :: int] = length [[0, 1], [2, 3 :: real]] \<and>
   (3::int) \<le> 3 \<and> (3::int) \<le> 5 \<and>
   compute_discriminator_loss 6 [[0, 1], [2, 3]] [3, 5] = Inr 0"
  using no_indomain_zero [of 6 "[3, 5]" "[[0, 1], [2, 3]]"] by simp

section \<open>Properties of the span loss\<close>

lemma clamp_range: "0 \<le> hi \<Longrightarrow> 0 \<le> clamp 0 hi x \<and> clamp 0 hi x \<le> hi"
  by (simp add: clamp_def)


lemma cross_entropy_row_clamped:
  assumes "int (length logits) = L"
  shows "cross_entropy_row L logits (clamp 0 L p) =
         Inr (if clamp 0 L p = L then 0 else - (log_softmax logits ! nat (clamp 0 L p)))"
proof -
  have "0 \<le> L" using assms by auto
  from clamp_range [OF this, of p] assms show ?thesis
    by (simp add: cross_entropy_row_def)
qed

lemma cross_entropy_none_clamped:
  assumes "length logits = length targets"
    and "\<forall>row\<in>set logits. int (length row) = L"
  shows "cross_entropy_none L logits (map (clamp 0 L) targets) =
         Inr (map2 (\<lambda>row p. if clamp 0 L p = L then 0
                              else - (log_softmax row ! nat (clamp 0 L p)))
                logits targets)"
proof -
  let ?f = "\<lambda>(row, p). cross_entropy_row L row (clamp 0 L p)"
  let ?g = "\<lambda>(row, p). if clamp 0 L p = L then 0 else - (log_softmax row ! nat (clamp 0 L p))"
  have "map2 (cross_entropy_row L) logits (map (clamp 0 L) targets) = map ?f (zip logits targets)"
    by (simp add: zip_map2 case_prod_unfold)
  moreover have "sequence_err (map ?f (zip logits targets)) = Inr (map ?g (zip logits targets))"
  proof (rule sequence_err_map_Inr)
    fix x assume "x \<in> set (zip logits targets)"
    then have "(fst x, snd x) \<in> set (zip logits targets)" by simp
    then have "fst x \<in> set logits" by (rule set_zip_leftD)
    with assms(2) have "int (length (fst x)) = L" by blast
    from cross_entropy_row_clamped [OF this, of "snd x"]
    show "?f x = Inr (?g x)" by (simp add: case_prod_unfold)
  qed
  ultimately show ?thesis using assms(1) by (simp add: cross_entropy_none_def)
qed

lemma span_losses_total:
  assumes "length start_logits = length start_positions"
    and "length end_logits = length end_positions"
    and "\<forall>row\<in>set start_logits. length row = size1 start_logits"
    and "\<forall>row\<in>set end_logits. length row = size1 start_logits"
  shows "span_losses start_logits end_logits start_positions end_positions =
     Inr (map2 (\<lambda>row p. if clamp 0 (int (size1 start_logits)) p = int (size1 start_logits) then 0
                  else - (log_softmax row ! nat (clamp 0 (int (size1 start_logits)) p)))
            start_logits start_positions,
          map2 (\<lambda>row p. if clamp 0 (int (size1 start_logits)) p = int (size1 start_logits) then 0
                  else - (log_softmax row ! nat (clamp 0 (int (size1 start_logits)) p)))
            end_logits end_positions)"
proof -
  have s: "\<forall>row\<in>set start_logits. int (length row) = int (size1 start_logits)"
    and e: "\<forall>row\<in>set end_logits. int (length row) = int (size1 start_logits)"
    using assms(3,4) by simp_all
  show ?thesis
    unfolding span_losses_def Let_def
      cross_entropy_none_clamped [OF assms(1) s] cross_entropy_none_clamped [OF assms(2) e]
    by (simp add: bind_err_def)
qed

lemma sum_list_map2_nth:
  fixes f :: "'a \<Rightarrow> 'b \<Rightarrow> real"
  assumes "length xs = n" and "length ys = n"
  shows "sum_list (map2 f xs ys) = (\<Sum>i<n. f (xs ! i) (ys ! i))"
proof -
  have "sum_list (map2 f xs ys) = (\<Sum>i = 0..<length (map2 f xs ys). map2 f xs ys ! i)"
    by (rule sum_list_sum_nth)
  also have "\<dots> = (\<Sum>i = 0..<n. f (xs ! i) (ys ! i))"
    using assms by (intro sum.cong) simp_all
  finally show ?thesis by (simp add: atLeast0LessThan)
qed

lemma sum_list_weighted:
  fixes s e w :: "real list"
  assumes "length s = B" and "length e = B" and "length w = B"
  shows "sum_list (map2 (*) (map (\<lambda>x. x / 2 / real B) (map2 (+) s e)) w) =
         (\<Sum>b<B. w ! b * ((s ! b + e ! b) / 2)) / real B"
proof -
  let ?h = "map (\<lambda>x. x / 2 / real B) (map2 (+) s e)"
  have len: "length ?h = B" using assms by simp
  have nth: "?h ! b = (s ! b + e ! b) / 2 / real B" if "b < B" for b
    using that assms by simp
  have "sum_list (map2 (*) ?h w) = (\<Sum>b<B. ?h ! b * w ! b)"
    using len assms(3) by (rule sum_list_map2_nth)
  also have "\<dots> = (\<Sum>b<B. w ! b * ((s ! b + e ! b) / 2) / real B)"
  proof (rule sum.cong [OF refl])
    fix b assume "b \<in> {..<B}"
    then have "b < B" by simp
    show "?h ! b * w ! b = w ! b * ((s ! b + e ! b) / 2) / real B"
      unfolding nth [OF \<open>b < B\<close>] by simp
  qed
  also have "\<dots> = (\<Sum>b<B. w ! b * ((s ! b + e ! b) / 2)) / real B"
    by (simp add: sum_divide_distrib)
  finally show ?thesis .
qed

lemma reweighted_span_loss_sum:
  assumes "well_shaped start_logits end_logits start_positions end_positions"
  shows "\<exists>weight start_loss end_loss.
           weights start_logits end_logits start_positions end_positions = Inr weight \<and>
           span_losses start_logits end_logits start_positions end_positions =
             Inr (start_loss, end_loss) \<and>
           length weight = length start_logits \<and>
           length start_loss = length start_logits \<and>
           length end_loss = length start_logits \<and>
           reweighted_span_loss start_logits end_logits start_positions end_positions =
             Inr ((\<Sum>b<length start_logits. weight ! b * ((start_loss ! b + end_loss ! b) / 2))
                  / real (length start_logits))"
proof -
  from assms have len: "length end_logits = length start_logits"
      "length start_positions = length start_logits"
      "length end_positions = length start_logits"
    and L: "0 < size1 start_logits"
    and rows: "\<forall>row\<in>set start_logits. length row = size1 start_logits"
      "\<forall>row\<in>set end_logits. length row = size1 start_logits"
    by (simp_all add: well_shaped_def list_all_iff)
  from rows L have ne: "list_all (\<lambda>row. row \<noteq> []) start_logits"
    "list_all (\<lambda>row. row \<noteq> []) end_logits"
    by (auto simp add: list_all_iff)
  have eqs: "length start_logits = length end_logits"
    "length start_positions = length end_positions"
    "length start_logits = length start_positions"
    "length end_logits = length end_positions"
    using len by simp_all
  from weights_total [OF eqs(1,2,3) ne] len
  obtain weight where w: "weights start_logits end_logits start_positions end_positions = Inr weight"
    "length weight = length start_logits"
    by auto
  from span_losses_total [OF eqs(3,4) rows] len
  obtain start_loss end_loss where
    sl: "span_losses start_logits end_logits start_positions end_positions = Inr (start_loss, end_loss)"
    "length start_loss = length start_logits" "length end_loss = length start_logits"
    by auto
  have "reweighted_span_loss start_logits end_logits start_positions end_positions =
      Inr (sum_list (map2 (*)
             (map (\<lambda>x. x / 2 / real (length start_logits)) (map2 (+) start_loss end_loss)) weight))"
    using w sl by (simp add: reweighted_span_loss_def Let_def bind_err_def)
  with sum_list_weighted [OF sl(2) sl(3) w(2)] w sl show ?thesis by auto
qed



section \<open>Properties of the expected-length penalty\<close>

lemma sum_list_upt_cong:
  fixes f g :: "nat \<Rightarrow> real"
  assumes "\<And>i. i < n \<Longrightarrow> f i = g i"
  shows "(\<Sum>i\<leftarrow>[0..<n]. f i) = (\<Sum>i\<leftarrow>[0..<n]. g i)"
  using assms by (intro arg_cong [where f = sum_list] map_cong refl) simp

lemma matmul_outer:
  "matmul (unsqueeze_col p_start) (unsqueeze_row p_end) =
   Inr (map (\<lambda>p. map (\<lambda>j. p * p_end ! j) [0..<length p_end]) p_start)"
  by (simp add: matmul_def unsqueeze_col_def unsqueeze_row_def size1_def list_all_iff)

lemma example_trace_sum:
  assumes "length p_start = L" and "length p_end = L"
    and "length lmask = L" and "size1 lmask = L"
  shows "example_trace lmask p_start p_end =
         Inr (\<Sum>i\<leftarrow>[0..<L]. \<Sum>j\<leftarrow>[0..<L]. p_start ! i * p_end ! j * lmask ! j ! i)"
proof -
  let ?se = "map (\<lambda>p. map (\<lambda>j. p * p_end ! j) [0..<length p_end]) p_start"
  let ?m = "map (\<lambda>row. map (\<lambda>j. \<Sum>k\<leftarrow>[0..<L]. row ! k * lmask ! k ! j) [0..<L]) ?se"
  have "matmul ?se lmask = Inr ?m"
    using assms by (simp add: matmul_def list_all_iff)
  then have mul: "example_length_mul lmask p_start p_end = Inr ?m"
    by (simp add: example_length_mul_def matmul_outer transpose_1_1_def bind_err_def)
  have size: "length ?m = L" "size1 ?m = L"
    using assms(1) by (cases p_start; simp add: size1_def)+
  have entry: "?m ! i ! i = (\<Sum>j\<leftarrow>[0..<L]. p_start ! i * p_end ! j * lmask ! j ! i)"
    if "i < L" for i
  proof -
    have row: "?se ! i = map (\<lambda>j. p_start ! i * p_end ! j) [0..<L]"
      using that assms(1,2) by simp
    have "?m ! i = map (\<lambda>j. \<Sum>k\<leftarrow>[0..<L]. ?se ! i ! k * lmask ! k ! j) [0..<L]"
      using that assms(1) by (simp del: map_map)
    then have "?m ! i ! i = (\<Sum>k\<leftarrow>[0..<L]. ?se ! i ! k * lmask ! k ! i)"
      using that by simp
    also have "\<dots> = (\<Sum>k\<leftarrow>[0..<L]. p_start ! i * p_end ! k * lmask ! k ! i)"
      unfolding row by (rule sum_list_upt_cong) simp
    finally show ?thesis .
  qed
  have "diagonal ?m = map (\<lambda>i. ?m ! i ! i) [0..<L]"
    by (simp only: diagonal_def size min.idem)
  also have "\<dots> = map (\<lambda>i. \<Sum>j\<leftarrow>[0..<L]. p_start ! i * p_end ! j * lmask ! j ! i) [0..<L]"
    by (rule map_cong [OF refl]) (simp only: entry set_upt atLeastLessThan_iff)
  finally show ?thesis
    by (simp add: example_trace_def mul bind_err_def)
qed

lemma length_mask_of_size1: "0 \<le> k \<Longrightarrow> size1 (length_mask_of L k) = L"
proof (cases L)
  case 0
  assume "0 \<le> k"
  with 0 show ?thesis
    using length_mask_of_dims(1) [of k 0] by (simp add: size1_def)
next
  case (Suc n)
  assume k: "0 \<le> k"
  from Suc have "0 < L" by simp
  from length_mask_of_dims(1) [OF k, of L] length_mask_of_dims(2) [OF k this] \<open>0 < L\<close>
  show ?thesis by (cases "length_mask_of L k") (auto simp add: size1_def)
qed

lemma example_trace_band:
  assumes "length p_start = L" and "length p_end = L" and "0 \<le> k"
  shows "example_trace (length_mask_of L k) p_start p_end =
         Inr (mass_where L (\<lambda>i j. j < i \<or> int j - int i > k) p_start p_end)"
proof -
  have "(\<Sum>i\<leftarrow>[0..<L]. \<Sum>j\<leftarrow>[0..<L]. p_start ! i * p_end ! j * length_mask_of L k ! j ! i) =
        (\<Sum>i\<leftarrow>[0..<L]. \<Sum>j\<leftarrow>[0..<L].
            if j < i \<or> int j - int i > k then p_start ! i * p_end ! j else 0)"
  proof (intro sum_list_upt_cong)
    fix i j assume "i < L" "j < L"
    from length_mask_of_nth [OF this(2,1) assms(3)]
    show "p_start ! i * p_end ! j * length_mask_of L k ! j ! i =
          (if j < i \<or> int j - int i > k then p_start ! i * p_end ! j else 0)"
      by auto
  qed
  with example_trace_sum [OF assms(1,2) length_mask_of_dims(1) [OF assms(3)]
      length_mask_of_size1 [OF assms(3)]]
  show ?thesis by (simp add: mass_where_def)
qed

lemma softmax_zeros5: "softmax [0, 0, 0, 0, 0] = [1 / 5, 1 / 5, 1 / 5, 1 / 5, 1 / 5]"
  by (simp add: softmax_def)

lemma upt_5: "[0..<5] = [0, 1, 2, 3, 4]"
  by (simp add: upt_rec)

lemma upt_2: "[0..<2] = [0, 1]"
  by (simp add: upt_rec)

lemma softmax_zeros2: "softmax [0, 0] = [1 / 2, 1 / 2]"
  by (simp add: softmax_def)

text \<open>
  Claim C2, as the code has it.  For one example with logits of length \<open>L\<close> and a mask built
  for \<open>k \<ge> 0\<close>, the trace of the product of the outer-product matrix of the two softmax
  vectors with the mask is the probability of the pairs (start \<open>i\<close>, end \<open>j\<close>) with
  \<open>j < i\<close> or \<open>j - i > k\<close>: the spans that end before they start and the spans of length
  \<open>j - i + 1\<close> above \<open>k + 1\<close>.
\<close>

theorem trace_is_mass_outside_band:
  assumes "length start_logits = L" and "length end_logits = L" and "0 \<le> k"
  shows "example_trace (length_mask_of L k) (softmax start_logits) (softmax end_logits) =
         Inr (mass_where L (\<lambda>i j. j < i \<or> int j - int i > k)
                (softmax start_logits) (softmax end_logits))"
  using assms by (intro example_trace_band) (simp_all add: softmax_def)

theorem trace_is_mass_outside_band_witness:
  "length [0, 0 :: real] = 2 \<and> (0::int) \<le> 0 \<and>
   example_trace (length_mask_of 2 0) (softmax [0, 0]) (softmax [0, 0]) = Inr (1 / 2)"
proof -
  have "mass_where 2 (\<lambda>i j. j < i \<or> int j - int i > 0) (softmax [0, 0]) (softmax [0, 0]) = 1 / 2"
    unfolding softmax_zeros2 mass_where_def upt_2 by simp
  with trace_is_mass_outside_band [of "[0, 0]" 2 "[0, 0]" 0] show ?thesis by simp
qed

text \<open>
  With five positions, \<open>k = 1\<close> and uniform distributions, the trace is \<open>16/25\<close>, while
  the pairs whose length \<open>j - i + 1\<close> exceeds 1 have probability \<open>10/25\<close>.
\<close>

theorem trace_counterexample:
  "example_trace (length_mask_of 5 1) (softmax [0, 0, 0, 0, 0]) (softmax [0, 0, 0, 0, 0]) =
     Inr (16 / 25) \<and>
   mass_where 5 (\<lambda>i j. int j - int i + 1 > 1)
     (softmax [0, 0, 0, 0, 0]) (softmax [0, 0, 0, 0, 0]) = 10 / 25"
proof -
  have "example_trace (length_mask_of 5 1) (softmax [0, 0, 0, 0, 0]) (softmax [0, 0, 0, 0, 0]) =
      Inr (mass_where 5 (\<lambda>i j. j < i \<or> int j - int i > 1)
             (softmax [0, 0, 0, 0, 0]) (softmax [0, 0, 0, 0, 0]))"
    by (rule example_trace_band) (simp_all add: softmax_def)
  moreover have "mass_where 5 (\<lambda>i j. j < i \<or> int j - int i > 1)
             (softmax [0, 0, 0, 0, 0]) (softmax [0, 0, 0, 0, 0]) = 16 / 25"
    unfolding softmax_zeros5 mass_where_def upt_5 by simp
  moreover have "mass_where 5 (\<lambda>i j. int j - int i + 1 > 1)
     (softmax [0, 0, 0, 0, 0]) (softmax [0, 0, 0, 0, 0]) = 10 / 25"
    unfolding softmax_zeros5 mass_where_def upt_5 by simp
  ultimately show ?thesis by simp
qed

lemma trace_small:
  "example_trace [[0, 1], [0, 0]] [a, b] [c, d] = Inr (b * c)"
  by (simp add: example_trace_def example_length_mul_def matmul_def unsqueeze_col_def
      unsqueeze_row_def transpose_1_1_def diagonal_def size1_def bind_err_def upt_2)

section \<open>Properties of the loss of the base model\<close>

text \<open>
  Claim C5.  With reweighting, the length loss and the discriminator all enabled, on a
  well-shaped batch for which the length loss is \<open>ll\<close> and the discriminator loss is
  \<open>adv\<close>, the loss that is backpropagated is the span loss plus \<open>length_lambda\<close> times
  \<open>ll\<close> plus \<open>discriminator_lambda\<close> times \<open>adv\<close>; the span loss is the sum over the
  examples of the weight times the mean of the start and end cross-entropy, divided by
  the batch size.
\<close>

theorem qa_loss_composition:
  assumes "well_shaped start_logits end_logits start_positions end_positions"
    and "enable_length_bp_penalty tr" and "enable_length_loss tr" and "enable_discriminator tr"
    and "length_loss (length_mask tr) start_logits end_logits = Inr ll"
    and "compute_discriminator_loss (num_classes tr) log_prob data_set_ids = Inr adv"
  shows "\<exists>weight start_loss end_loss.
           weights start_logits end_logits start_positions end_positions = Inr weight \<and>
           span_losses start_logits end_logits start_positions end_positions =
             Inr (start_loss, end_loss) \<and>
           qa_loss tr loss0 start_logits end_logits start_positions end_positions
               log_prob data_set_ids =
             Inr ((\<Sum>b<length start_logits. weight ! b * ((start_loss ! b + end_loss ! b) / 2))
                    / real (length start_logits)
                  + length_lambda tr * ll + discriminator_lambda tr * adv)"
proof -
  from reweighted_span_loss_sum [OF assms(1)]
  obtain weight start_loss end_loss where
    w: "weights start_logits end_logits start_positions end_positions = Inr weight"
    and s: "span_losses start_logits end_logits start_positions end_positions =
             Inr (start_loss, end_loss)"
    and r: "reweighted_span_loss start_logits end_logits start_positions end_positions =
             Inr ((\<Sum>b<length start_logits. weight ! b * ((start_loss ! b + end_loss ! b) / 2))
                  / real (length start_logits))"
    by blast
  have "qa_loss tr loss0 start_logits end_logits start_positions end_positions
               log_prob data_set_ids =
             Inr ((\<Sum>b<length start_logits. weight ! b * ((start_loss ! b + end_loss ! b) / 2))
                    / real (length start_logits)
                  + length_lambda tr * ll + discriminator_lambda tr * adv)"
    using assms(2-6) r by (simp add: qa_loss_def bind_err_def)
  with w s show ?thesis by blast
qed

theorem qa_loss_composition_witness:
  "qa_loss
     \<lparr>enable_length_bp_penalty = True, enable_length_loss = True,
      length_mask = [[0, 1], [0, 0]], length_lambda = 2,
      enable_discriminator = True, discriminator_lambda = 3,
      num_adv_steps = 1, num_classes = 2\<rparr>
     0 [[0, 0]] [[0, 0]] [0] [1] [[ln (1 / 2), ln (1 / 2)]] [0] = Inr (ln 2 + 1 / 2)"
proof -
  let ?tr = "\<lparr>enable_length_bp_penalty = True, enable_length_loss = True,
      length_mask = [[0, 1], [0, 0]], length_lambda = 2,
      enable_discriminator = True, discriminator_lambda = 3,
      num_adv_steps = 1, num_classes = 2\<rparr>"
  have ws: "well_shaped [[0, 0]] [[0, 0]] [0] [1]"
    by (simp add: well_shaped_def size1_def)
  have flags: "enable_length_bp_penalty ?tr" "enable_length_loss ?tr" "enable_discriminator ?tr"
    by simp_all
  have ll: "length_loss (length_mask ?tr) [[0, 0]] [[0, 0]] = Inr (1 / 4)"
    by (simp add: length_loss_def length_loss_of_probs_def softmax_zeros2 trace_small bind_err_def)
  have adv: "compute_discriminator_loss (num_classes ?tr) [[ln (1 / 2), ln (1 / 2)]] [0] = Inr 0"
    by (simp add: compute_discriminator_loss_def mask_rows_def kl_div_batchmean_def
        broadcast_rows_def kl_pointwise_def bind_err_def)
  from qa_loss_composition [OF ws flags ll adv, of 0]
  obtain weight start_loss end_loss where
    w: "weights [[0, 0]] [[0, 0]] [0] [1] = Inr weight"
    and s: "span_losses [[0, 0]] [[0, 0]] [0] [1] = Inr (start_loss, end_loss)"
    and q: "qa_loss ?tr 0 [[0, 0]] [[0, 0]] [0] [1] [[ln (1 / 2), ln (1 / 2)]] [0] =
       Inr ((\<Sum>b<length [[0, 0 :: real]]. weight ! b * ((start_loss ! b + end_loss ! b) / 2))
              / real (length [[0, 0 :: real]])
            + length_lambda ?tr * (1 / 4) + discriminator_lambda ?tr * 0)"
    by blast
  have "weights [[0, 0]] [[0, 0]] [0] [1] = Inr [1]"
    by (simp add: weights_def pred_lengths_def gold_lengths_def argmax_def length_weight_def
        bind_err_def)
  with w have weight: "weight = [1]" by simp
  have "span_losses [[0, 0]] [[0, 0]] [0] [1] = Inr ([ln 2], [ln 2])"
    by (simp add: span_losses_def size1_def clamp_def cross_entropy_none_def
        cross_entropy_row_def log_softmax_def bind_err_def)
  with s have losses: "start_loss = [ln 2]" "end_loss = [ln 2]" by auto
  from q show ?thesis unfolding weight losses by simp
qed

section \<open>Properties of the steps of one training batch\<close>

lemma count_dis_iterations:
  "count_list (concat (replicate n dis_iteration)) DisStep = 2 * n"
  "count_list (concat (replicate n dis_iteration)) DisBackward = n"
  "count_list (concat (replicate n dis_iteration)) QaStep = 0"
  "filter is_print (concat (replicate n dis_iteration)) = []"
  by (induction n) (simp_all add: dis_iteration_def)

lemma adv_steps_returning:
  assumes "\<forall>i<n. \<not> isl (forward_discriminator (dis_log_prob (step + i)) data_set_ids)"
  shows "adv_steps n step dis_log_prob data_set_ids = concat (replicate n dis_iteration)"
  using assms
proof (induction n arbitrary: step)
  case 0
  show ?case by simp
next
  case (Suc n)
  from Suc.prems have "\<not> isl (forward_discriminator (dis_log_prob (step + 0)) data_set_ids)"
    by blast
  then obtain r where r: "forward_discriminator (dis_log_prob step) data_set_ids = Inr r"
    by (cases "forward_discriminator (dis_log_prob step) data_set_ids") simp_all
  have "\<forall>i<n. \<not> isl (forward_discriminator (dis_log_prob (Suc step + i)) data_set_ids)"
  proof (intro allI impI)
    fix i assume "i < n"
    then have "Suc i < Suc n" by simp
    with Suc.prems have "\<not> isl (forward_discriminator (dis_log_prob (step + Suc i)) data_set_ids)"
      by blast
    then show "\<not> isl (forward_discriminator (dis_log_prob (Suc step + i)) data_set_ids)" by simp
  qed
  from Suc.IH [OF this] r show ?case by (simp add: dis_iteration_def)
qed

lemma adv_steps_no_print: "filter is_print (adv_steps n step dis_log_prob data_set_ids) = []"
  by (induction n arbitrary: step) (simp_all split: sum.splits)

lemma adv_steps_no_qa:
  "QaStep \<notin> set (adv_steps n step dis_log_prob data_set_ids)"
  "QaBackward \<notin> set (adv_steps n step dis_log_prob data_set_ids)"
  by (induction n arbitrary: step) (simp_all split: sum.splits)

lemma filter_is_print_map_Print: "filter is_print (map Print xs) = map Print xs"
  by (induction xs) simp_all

lemma map_Print_no_steps:
  "count_list (map Print xs) QaStep = 0"
  "count_list (map Print xs) DisStep = 0"
  "count_list (map Print xs) DisBackward = 0"
  "QaStep \<notin> set (map Print xs)" "DisStep \<notin> set (map Print xs)"
  "QaBackward \<notin> set (map Print xs)"
  by (induction xs) auto

lemma events_when_loss_returns:
  assumes "qa_loss tr loss0 start_logits end_logits start_positions end_positions
             log_prob data_set_ids = Inr v"
  shows "train_batch_events tr loss start_logits end_logits start_positions end_positions
           log_prob dis_log_prob data_set_ids =
         [QaZeroGrad, DisZeroGrad]
         @ (if enable_length_bp_penalty tr \<and> isnan loss then map Print nan_report else [])
         @ [QaBackward, QaStep]
         @ (if enable_discriminator tr
            then adv_steps (nat (num_adv_steps tr)) 0 dis_log_prob data_set_ids else [])"
  using assms
  by (auto simp add: qa_loss_def train_batch_events_def length_loss_events_def
      discriminator_events_def bind_err_def split: sum.splits if_splits)

lemma events_when_loss_raises:
  assumes "qa_loss tr loss0 start_logits end_logits start_positions end_positions
             log_prob data_set_ids = Inl e"
  shows "train_batch_events tr loss start_logits end_logits start_positions end_positions
           log_prob dis_log_prob data_set_ids =
         [QaZeroGrad, DisZeroGrad]
         @ (if enable_length_bp_penalty tr
               \<and> \<not> isl (reweighted_span_loss start_logits end_logits start_positions end_positions)
               \<and> isnan loss
            then map Print nan_report else [])
         @ [Raise e]"
  using assms
  by (auto simp add: qa_loss_def train_batch_events_def length_loss_events_def
      discriminator_events_def bind_err_def split: sum.splits if_splits)

lemma length_loss_returns:
  assumes "length lmask = L" and "size1 lmask = L"
    and "length end_logits = length start_logits"
    and "\<forall>row\<in>set start_logits. length row = L"
    and "\<forall>row\<in>set end_logits. length row = L"
  shows "\<not> isl (length_loss lmask start_logits end_logits)"
proof -
  let ?ps = "map softmax start_logits" and ?pe = "map softmax end_logits"
  let ?t = "\<lambda>pq. \<Sum>i\<leftarrow>[0..<L]. \<Sum>j\<leftarrow>[0..<L]. fst pq ! i * snd pq ! j * lmask ! j ! i"
  have eq: "map2 (example_trace lmask) ?ps ?pe =
        map (\<lambda>pq. example_trace lmask (fst pq) (snd pq)) (zip ?ps ?pe)"
    by (simp add: case_prod_unfold)
  have "sequence_err (map2 (example_trace lmask) ?ps ?pe) = Inr (map ?t (zip ?ps ?pe))"
    unfolding eq
  proof (rule sequence_err_map_Inr)
    fix pq assume "pq \<in> set (zip ?ps ?pe)"
    then have mem: "(fst pq, snd pq) \<in> set (zip ?ps ?pe)" by simp
    have "fst pq \<in> set ?ps" "snd pq \<in> set ?pe"
      using set_zip_leftD [OF mem] set_zip_rightD [OF mem] by blast+
    with assms(4,5) have "length (fst pq) = L" "length (snd pq) = L"
      by (auto simp add: softmax_def)
    from example_trace_sum [OF this assms(1,2)]
    show "example_trace lmask (fst pq) (snd pq) = Inr (?t pq)" .
  qed
  then show ?thesis
    using assms(3) by (simp add: length_loss_def length_loss_of_probs_def bind_err_def)
qed

lemma qa_loss_returns:
  assumes "\<not> isl (reweighted_span_loss start_logits end_logits start_positions end_positions)"
    and "\<not> isl (length_loss (length_mask tr) start_logits end_logits)"
    and "\<not> isl (compute_discriminator_loss (num_classes tr) log_prob data_set_ids)"
  shows "\<not> isl (qa_loss tr loss0 start_logits end_logits start_positions end_positions
                  log_prob data_set_ids)"
  using assms by (auto simp add: qa_loss_def bind_err_def split: sum.splits)

lemma qa_loss_raises_in_discriminator:
  assumes "\<not> isl (reweighted_span_loss start_logits end_logits start_positions end_positions)"
    and "\<not> isl (length_loss (length_mask tr) start_logits end_logits)"
    and "enable_discriminator tr"
    and "compute_discriminator_loss (num_classes tr) log_prob data_set_ids = Inl e"
  shows "qa_loss tr loss0 start_logits end_logits start_positions end_positions
           log_prob data_set_ids = Inl e"
  using assms by (auto simp add: qa_loss_def bind_err_def split: sum.splits)

lemma qa_loss_returned_span:
  assumes "qa_loss tr loss0 start_logits end_logits start_positions end_positions
             log_prob data_set_ids = Inr v"
    and "enable_length_bp_penalty tr"
  shows "\<not> isl (reweighted_span_loss start_logits end_logits start_positions end_positions)"
  using assms by (auto simp add: qa_loss_def bind_err_def split: sum.splits)

lemma events_prints:
  "filter is_print
     (train_batch_events tr loss start_logits end_logits start_positions end_positions
        log_prob dis_log_prob data_set_ids) =
   (if enable_length_bp_penalty tr
       \<and> \<not> isl (reweighted_span_loss start_logits end_logits start_positions end_positions)
       \<and> isnan loss
    then map Print nan_report else [])"
proof (cases "qa_loss tr 0 start_logits end_logits start_positions end_positions
                log_prob data_set_ids")
  case (Inl e)
  show ?thesis
    unfolding events_when_loss_raises [OF Inl]
    by (simp add: filter_is_print_map_Print)
next
  case (Inr v)
  show ?thesis
    unfolding events_when_loss_returns [OF Inr]
    using qa_loss_returned_span [OF Inr]
    by (auto simp add: filter_is_print_map_Print adv_steps_no_print)
qed

subsection \<open>Three batches\<close>

lemma replicate_3: "replicate 3 x = [x, x, x]"
  by (simp add: numeral_3_eq_3)

lemma zero_batch_shaped:
  "well_shaped (zero_logits 3) (zero_logits 3) [0, 0, 0] [0, 0, 0]"
  by (simp add: well_shaped_def zero_logits_def size1_def replicate_3)

lemma spike_batch_shaped: "well_shaped spike_logits spike_logits [1] [1]"
  by (simp add: well_shaped_def spike_logits_def size1_def)

lemma well_shaped_span_returns:
  assumes "well_shaped start_logits end_logits start_positions end_positions"
  shows "\<not> isl (reweighted_span_loss start_logits end_logits start_positions end_positions)"
  using reweighted_span_loss_sum [OF assms] by auto

lemma well_shaped_length_returns:
  assumes "well_shaped start_logits end_logits start_positions end_positions"
    and "size1 start_logits = 384" and "0 \<le> k"
  shows "\<not> isl (length_loss (init_length_mask k) start_logits end_logits)"
proof -
  from assms(1,2) have "length end_logits = length start_logits"
    "\<forall>row\<in>set start_logits. length row = 384" "\<forall>row\<in>set end_logits. length row = 384"
    by (simp_all add: well_shaped_def list_all_iff)
  with length_mask_of_dims(1) [OF assms(3), of 384] length_mask_of_size1 [OF assms(3), of 384]
  show ?thesis
    unfolding init_length_mask_def by (intro length_loss_returns [where L = 384]) simp_all
qed

lemma discriminator_loss_all_indomain:
  "\<not> isl (compute_discriminator_loss 6 (uniform_log_prob 3) [0, 1, 2])"
  by (simp add: compute_discriminator_loss_def mask_rows_def kl_div_batchmean_def
      broadcast_rows_def bind_err_def uniform_log_prob_def replicate_3 Let_def)

lemma discriminator_loss_one:
  "\<not> isl (compute_discriminator_loss 6 (uniform_log_prob 1) [0])"
  by (simp add: compute_discriminator_loss_def mask_rows_def kl_div_batchmean_def
      broadcast_rows_def bind_err_def uniform_log_prob_def replicate_3 Let_def)

lemma discriminator_loss_mixed:
  "compute_discriminator_loss 6 (uniform_log_prob 3) [0, 1, 5] = Inl ShapeError"
  by (simp add: compute_discriminator_loss_def mask_rows_def kl_div_batchmean_def
      broadcast_rows_def bind_err_def uniform_log_prob_def replicate_3 Let_def)

lemma forward_discriminator_returns:
  "\<not> isl (forward_discriminator (same_output (uniform_log_prob 3) step) [0, 1, 2])"
  "\<not> isl (forward_discriminator (same_output (uniform_log_prob 3) step) [0, 1, 5])"
  "\<not> isl (forward_discriminator (same_output (uniform_log_prob 1) step) [0])"
  by (simp_all add: forward_discriminator_def nll_loss_def nll_row_def bind_err_def
      uniform_log_prob_def same_output_def List.map_filter_simps replicate_3)

lemma fold_max_zeros: "fold max (replicate n (0::real)) 0 = 0"
  by (induction n) simp_all

lemma argmax_zeros: "argmax (replicate 384 0) = Inr 0"
  by (simp add: argmax_def fold_max_zeros takeWhile_replicate del: fold_replicate)

lemma cross_entropy_zeros:
  "cross_entropy_row 384 (replicate 384 0) 0 = Inr (ln 384)"
  by (simp add: cross_entropy_row_def log_softmax_def sum_list_replicate)

lemma zero_batch_span_loss:
  "reweighted_span_loss (zero_logits 3) (zero_logits 3) [0, 0, 0] [0, 0, 0] = Inr (ln 384)"
  by (simp add: reweighted_span_loss_def weights_def pred_lengths_def gold_lengths_def
      span_losses_def cross_entropy_none_def zero_logits_def replicate_3 size1_def clamp_def
      argmax_zeros cross_entropy_zeros length_weight_def bind_err_def Let_def)

lemma spike_span_losses:
  "\<exists>x. span_losses spike_logits spike_logits [1] [1] = Inr ([x], [x]) \<and> 2 ^ 128 \<le> x"
proof -
  let ?row = "2 ^ 127 # - (2 ^ 127) # replicate 382 (0::real)"
  let ?S = "sum_list (map exp ?row)"
  have "exp (2 ^ 127) \<le> ?S"
    by (simp add: sum_list_replicate add_increasing2)
  then have "ln (exp (2 ^ 127 :: real)) \<le> ln ?S"
    by (intro ln_mono) (simp_all add: less_le_trans [OF exp_gt_zero])
  then have "(2 ^ 128 :: real) \<le> - (- (2 ^ 127) - ln ?S)" by simp
  moreover have "span_losses spike_logits spike_logits [1] [1] =
      Inr ([- (- (2 ^ 127) - ln ?S)], [- (- (2 ^ 127) - ln ?S)])"
    by (simp add: span_losses_def spike_logits_def size1_def clamp_def cross_entropy_none_def
        cross_entropy_row_def log_softmax_def bind_err_def)
  ultimately show ?thesis by blast
qed

lemma zero_batch_loss_returns:
  "\<not> isl (qa_loss (all_enabled 3) 0 (zero_logits 3) (zero_logits 3) [0, 0, 0] [0, 0, 0]
            (uniform_log_prob 3) [0, 1, 2])"
proof (rule qa_loss_returns)
  show "\<not> isl (reweighted_span_loss (zero_logits 3) (zero_logits 3) [0, 0, 0] [0, 0, 0])"
    by (rule well_shaped_span_returns [OF zero_batch_shaped])
  show "\<not> isl (length_loss (length_mask (all_enabled 3)) (zero_logits 3) (zero_logits 3))"
    using well_shaped_length_returns [OF zero_batch_shaped, of 30]
    by (simp add: all_enabled_def zero_logits_def size1_def replicate_3)
  show "\<not> isl (compute_discriminator_loss (num_classes (all_enabled 3))
                  (uniform_log_prob 3) [0, 1, 2])"
    using discriminator_loss_all_indomain by (simp add: all_enabled_def)
qed

lemma zero_batch_events:
  "train_batch_events (all_enabled 3) (Finite (ln 384)) (zero_logits 3) (zero_logits 3)
     [0, 0, 0] [0, 0, 0] (uniform_log_prob 3) (same_output (uniform_log_prob 3)) [0, 1, 2] =
   [QaZeroGrad, DisZeroGrad, QaBackward, QaStep] @ concat (replicate 3 dis_iteration)"
proof -
  obtain v where v: "qa_loss (all_enabled 3) 0 (zero_logits 3) (zero_logits 3)
      [0, 0, 0] [0, 0, 0] (uniform_log_prob 3) [0, 1, 2] = Inr v"
    using zero_batch_loss_returns
    by (cases "qa_loss (all_enabled 3) 0 (zero_logits 3) (zero_logits 3)
      [0, 0, 0] [0, 0, 0] (uniform_log_prob 3) [0, 1, 2]") simp_all
  have "adv_steps 3 0 (same_output (uniform_log_prob 3)) [0, 1, 2] =
      concat (replicate 3 dis_iteration)"
    by (rule adv_steps_returning) (simp add: forward_discriminator_returns)
  with events_when_loss_returns [OF v] show ?thesis
    by (simp add: all_enabled_def)
qed

lemma mixed_batch_loss:
  "qa_loss (all_enabled 3) 0 (zero_logits 3) (zero_logits 3) [0, 0, 0] [0, 0, 0]
     (uniform_log_prob 3) [0, 1, 5] = Inl ShapeError"
proof (rule qa_loss_raises_in_discriminator)
  show "\<not> isl (reweighted_span_loss (zero_logits 3) (zero_logits 3) [0, 0, 0] [0, 0, 0])"
    by (rule well_shaped_span_returns [OF zero_batch_shaped])
  show "\<not> isl (length_loss (length_mask (all_enabled 3)) (zero_logits 3) (zero_logits 3))"
    using well_shaped_length_returns [OF zero_batch_shaped, of 30]
    by (simp add: all_enabled_def zero_logits_def size1_def replicate_3)
  show "enable_discriminator (all_enabled 3)" by (simp add: all_enabled_def)
  show "compute_discriminator_loss (num_classes (all_enabled 3)) (uniform_log_prob 3) [0, 1, 5] =
      Inl ShapeError"
    using discriminator_loss_mixed by (simp add: all_enabled_def)
qed

lemma mixed_batch_events:
  "train_batch_events (all_enabled 3) (Finite (ln 384)) (zero_logits 3) (zero_logits 3)
     [0, 0, 0] [0, 0, 0] (uniform_log_prob 3) (same_output (uniform_log_prob 3)) [0, 1, 5] =
   [QaZeroGrad, DisZeroGrad, Raise ShapeError]"
  using events_when_loss_raises [OF mixed_batch_loss] by simp

subsection \<open>The optimizer steps\<close>

text \<open>
  Claim C4, as the code has it.  Let the discriminator be enabled and \<open>N \<ge> 0\<close>
  discriminator steps be configured.  When the loss of the base model is computed without
  an error and \<open>forward_discriminator\<close> returns in each of the \<open>N\<close> iterations, the batch
  does, in this order: the two \<^verbatim>\<open>zero_grad\<close> calls, the report of a loss that is not a
  number if there is one, the backward pass and the one optimizer step of the base model,
  and then \<open>N\<close> iterations of the discriminator loop, each of them a step of the
  discriminator's optimizer, its \<^verbatim>\<open>zero_grad\<close>, the forward pass, the backward pass and a
  second step of that optimizer.  So the discriminator's optimizer is stepped \<open>2 N\<close>
  times, always after the step of the base model.  When computing the loss of the base
  model raises, the batch ends with that exception and no optimizer is stepped.
\<close>

theorem adversarial_batch_steps:
  assumes "enable_discriminator tr" and "0 \<le> num_adv_steps tr"
  shows "(qa_loss tr loss0 start_logits end_logits start_positions end_positions
            log_prob data_set_ids = Inr v \<and>
          (\<forall>step<nat (num_adv_steps tr).
             \<not> isl (forward_discriminator (dis_log_prob step) data_set_ids)) \<longrightarrow>
          train_batch_events tr loss start_logits end_logits start_positions end_positions
            log_prob dis_log_prob data_set_ids =
            [QaZeroGrad, DisZeroGrad]
            @ (if enable_length_bp_penalty tr \<and> isnan loss then map Print nan_report else [])
            @ [QaBackward, QaStep]
            @ concat (replicate (nat (num_adv_steps tr)) dis_iteration) \<and>
          count_list (train_batch_events tr loss start_logits end_logits start_positions
            end_positions log_prob dis_log_prob data_set_ids) QaStep = 1 \<and>
          int (count_list (train_batch_events tr loss start_logits end_logits start_positions
            end_positions log_prob dis_log_prob data_set_ids) DisStep) = 2 * num_adv_steps tr) \<and>
         (qa_loss tr loss0 start_logits end_logits start_positions end_positions
            log_prob data_set_ids = Inl e \<longrightarrow>
          last (train_batch_events tr loss start_logits end_logits start_positions
            end_positions log_prob dis_log_prob data_set_ids) = Raise e \<and>
          count_list (train_batch_events tr loss start_logits end_logits start_positions
            end_positions log_prob dis_log_prob data_set_ids) QaStep = 0 \<and>
          count_list (train_batch_events tr loss start_logits end_logits start_positions
            end_positions log_prob dis_log_prob data_set_ids) DisStep = 0)"
proof (intro conjI impI)
  let ?ev = "train_batch_events tr loss start_logits end_logits start_positions
            end_positions log_prob dis_log_prob data_set_ids"
  let ?report = "if enable_length_bp_penalty tr \<and> isnan loss then map Print nan_report else []"
  let ?loop = "concat (replicate (nat (num_adv_steps tr)) dis_iteration)"
  assume h: "qa_loss tr loss0 start_logits end_logits start_positions end_positions
            log_prob data_set_ids = Inr v \<and>
          (\<forall>step<nat (num_adv_steps tr).
             \<not> isl (forward_discriminator (dis_log_prob step) data_set_ids))"
  then have "adv_steps (nat (num_adv_steps tr)) 0 dis_log_prob data_set_ids = ?loop"
    by (intro adv_steps_returning) simp
  with events_when_loss_returns [OF h [THEN conjunct1]] assms(1)
  show ev: "?ev = [QaZeroGrad, DisZeroGrad] @ ?report @ [QaBackward, QaStep] @ ?loop"
    by simp
  have report: "count_list ?report QaStep = 0" "count_list ?report DisStep = 0"
    by (simp_all add: map_Print_no_steps)
  show "count_list ?ev QaStep = 1"
    unfolding ev using report(1) by (simp add: count_dis_iterations del: append.simps)
  show "int (count_list ?ev DisStep) = 2 * num_adv_steps tr"
    unfolding ev using report(2) assms(2)
    by (simp add: count_dis_iterations del: append.simps)
next
  let ?ev = "train_batch_events tr loss start_logits end_logits start_positions
            end_positions log_prob dis_log_prob data_set_ids"
  let ?report = "if enable_length_bp_penalty tr
               \<and> \<not> isl (reweighted_span_loss start_logits end_logits start_positions end_positions)
               \<and> isnan loss
            then map Print nan_report else []"
  assume h: "qa_loss tr loss0 start_logits end_logits start_positions end_positions
            log_prob data_set_ids = Inl e"
  note ev = events_when_loss_raises [OF h, of loss dis_log_prob]
  have report: "count_list ?report QaStep = 0" "count_list ?report DisStep = 0"
    by (simp_all add: map_Print_no_steps)
  show "last ?ev = Raise e" unfolding ev by simp
  show "count_list ?ev QaStep = 0"
    unfolding ev using report(1) by (simp del: append.simps)
  show "count_list ?ev DisStep = 0"
    unfolding ev using report(2) by (simp del: append.simps)
qed

theorem adversarial_batch_steps_witness:
  "count_list (train_batch_events (all_enabled 3) (Finite (ln 384)) (zero_logits 3)
     (zero_logits 3) [0, 0, 0] [0, 0, 0] (uniform_log_prob 3)
     (same_output (uniform_log_prob 3)) [0, 1, 2]) QaStep = 1 \<and>
   int (count_list (train_batch_events (all_enabled 3) (Finite (ln 384)) (zero_logits 3)
     (zero_logits 3) [0, 0, 0] [0, 0, 0] (uniform_log_prob 3)
     (same_output (uniform_log_prob 3)) [0, 1, 2]) DisStep) = 2 * 3 \<and>
   last (train_batch_events (all_enabled 3) (Finite (ln 384)) (zero_logits 3)
     (zero_logits 3) [0, 0, 0] [0, 0, 0] (uniform_log_prob 3)
     (same_output (uniform_log_prob 3)) [0, 1, 5]) = Raise ShapeError \<and>
   count_list (train_batch_events (all_enabled 3) (Finite (ln 384)) (zero_logits 3)
     (zero_logits 3) [0, 0, 0] [0, 0, 0] (uniform_log_prob 3)
     (same_output (uniform_log_prob 3)) [0, 1, 5]) QaStep = 0"
proof -
  have en: "enable_discriminator (all_enabled 3)" "0 \<le> num_adv_steps (all_enabled 3)"
    "num_adv_steps (all_enabled 3) = 3"
    by (simp_all add: all_enabled_def)
  obtain v where v: "qa_loss (all_enabled 3) 0 (zero_logits 3) (zero_logits 3)
      [0, 0, 0] [0, 0, 0] (uniform_log_prob 3) [0, 1, 2] = Inr v"
    using zero_batch_loss_returns
    by (cases "qa_loss (all_enabled 3) 0 (zero_logits 3) (zero_logits 3)
      [0, 0, 0] [0, 0, 0] (uniform_log_prob 3) [0, 1, 2]") simp_all
  have fd: "\<forall>step<nat (num_adv_steps (all_enabled 3)).
      \<not> isl (forward_discriminator (same_output (uniform_log_prob 3) step) [0, 1, 2])"
    by (simp add: forward_discriminator_returns)
  from adversarial_batch_steps [OF en(1,2), THEN conjunct1, rule_format, OF conjI, OF v fd,
      of "Finite (ln 384)"]
    adversarial_batch_steps [OF en(1,2), THEN conjunct2, rule_format, OF mixed_batch_loss,
      of "Finite (ln 384)" "same_output (uniform_log_prob 3)"]
  show ?thesis by (simp add: en(3) count_dis_iterations)
qed

text \<open>
  With three discriminator steps configured, a batch of three in-domain examples steps the
  discriminator's optimizer six times, not three times; and a batch of three examples of
  which two are in-domain steps no optimizer, because \<open>compute_discriminator_loss\<close> raises
  on it.
\<close>

theorem discriminator_updates_counterexample:
  "enable_discriminator (all_enabled 3) \<and> num_adv_steps (all_enabled 3) = 3 \<and>
   count_list (train_batch_events (all_enabled 3) (Finite (ln 384)) (zero_logits 3)
     (zero_logits 3) [0, 0, 0] [0, 0, 0] (uniform_log_prob 3)
     (same_output (uniform_log_prob 3)) [0, 1, 2]) DisStep = 6 \<and>
   count_list (train_batch_events (all_enabled 3) (Finite (ln 384)) (zero_logits 3)
     (zero_logits 3) [0, 0, 0] [0, 0, 0] (uniform_log_prob 3)
     (same_output (uniform_log_prob 3)) [0, 1, 5]) QaStep = 0"
  unfolding zero_batch_events mixed_batch_events
  by (simp add: all_enabled_def dis_iteration_def replicate_3)

subsection \<open>The check for a loss that is not a number\<close>

text \<open>
  Claim C9, as the code has it.  The trainer prints its diagnostic lines (the weights, the
  start and end losses, the batch size, the predicted and gold lengths, the positions)
  exactly when length-based reweighting is enabled, the reweighted span loss is computed
  without an error and it is not a number; an infinite loss, and any loss while
  reweighting is disabled, prints nothing.  The check does not end the batch: when the
  loss of the base model is computed without an error, the backward pass and the
  optimizer step of the base model follow everything that is printed; when the length
  loss or the discriminator loss raises, the batch ends with that exception, without a
  backward pass.
\<close>

theorem nan_report_events:
  "filter is_print
     (train_batch_events tr loss start_logits end_logits start_positions end_positions
        log_prob dis_log_prob data_set_ids) =
     (if enable_length_bp_penalty tr
         \<and> \<not> isl (reweighted_span_loss start_logits end_logits start_positions end_positions)
         \<and> isnan loss
      then map Print nan_report else []) \<and>
   (qa_loss tr loss0 start_logits end_logits start_positions end_positions
      log_prob data_set_ids = Inr v \<longrightarrow>
    (\<exists>before after.
       train_batch_events tr loss start_logits end_logits start_positions end_positions
         log_prob dis_log_prob data_set_ids = before @ QaBackward # QaStep # after \<and>
       filter is_print after = [])) \<and>
   (qa_loss tr loss0 start_logits end_logits start_positions end_positions
      log_prob data_set_ids = Inl e \<longrightarrow>
    last (train_batch_events tr loss start_logits end_logits start_positions end_positions
            log_prob dis_log_prob data_set_ids) = Raise e \<and>
    QaBackward \<notin> set (train_batch_events tr loss start_logits end_logits start_positions
            end_positions log_prob dis_log_prob data_set_ids) \<and>
    QaStep \<notin> set (train_batch_events tr loss start_logits end_logits start_positions
            end_positions log_prob dis_log_prob data_set_ids))"
proof (intro conjI impI)
  let ?ev = "train_batch_events tr loss start_logits end_logits start_positions end_positions
        log_prob dis_log_prob data_set_ids"
  show "filter is_print ?ev =
     (if enable_length_bp_penalty tr
         \<and> \<not> isl (reweighted_span_loss start_logits end_logits start_positions end_positions)
         \<and> isnan loss
      then map Print nan_report else [])"
    by (rule events_prints)
next
  let ?ev = "train_batch_events tr loss start_logits end_logits start_positions end_positions
        log_prob dis_log_prob data_set_ids"
  let ?after = "if enable_discriminator tr
            then adv_steps (nat (num_adv_steps tr)) 0 dis_log_prob data_set_ids else []"
  assume "qa_loss tr loss0 start_logits end_logits start_positions end_positions
      log_prob data_set_ids = Inr v"
  from events_when_loss_returns [OF this, of loss dis_log_prob]
  have "?ev = ([QaZeroGrad, DisZeroGrad]
         @ (if enable_length_bp_penalty tr \<and> isnan loss then map Print nan_report else []))
         @ QaBackward # QaStep # ?after"
    by simp
  moreover have "filter is_print ?after = []" by (simp add: adv_steps_no_print)
  ultimately show "\<exists>before after. ?ev = before @ QaBackward # QaStep # after \<and>
       filter is_print after = []"
    by blast
next
  let ?ev = "train_batch_events tr loss start_logits end_logits start_positions end_positions
        log_prob dis_log_prob data_set_ids"
  assume h: "qa_loss tr loss0 start_logits end_logits start_positions end_positions
      log_prob data_set_ids = Inl e"
  note ev = events_when_loss_raises [OF h, of loss dis_log_prob]
  show "last ?ev = Raise e" unfolding ev by simp
  show "QaBackward \<notin> set ?ev" unfolding ev by (auto simp add: map_Print_no_steps)
  show "QaStep \<notin> set ?ev" unfolding ev by (auto simp add: map_Print_no_steps)
qed

theorem nan_report_events_witness:
  "filter is_print (train_batch_events (all_enabled 3) NaN (zero_logits 3) (zero_logits 3)
     [0, 0, 0] [0, 0, 0] (uniform_log_prob 3) (same_output (uniform_log_prob 3)) [0, 1, 2]) =
     map Print nan_report \<and>
   QaStep \<in> set (train_batch_events (all_enabled 3) NaN (zero_logits 3) (zero_logits 3)
     [0, 0, 0] [0, 0, 0] (uniform_log_prob 3) (same_output (uniform_log_prob 3)) [0, 1, 2]) \<and>
   last (train_batch_events (all_enabled 3) NaN (zero_logits 3) (zero_logits 3)
     [0, 0, 0] [0, 0, 0] (uniform_log_prob 3) (same_output (uniform_log_prob 3)) [0, 1, 5]) =
     Raise ShapeError"
proof -
  obtain v where v: "qa_loss (all_enabled 3) 0 (zero_logits 3) (zero_logits 3)
      [0, 0, 0] [0, 0, 0] (uniform_log_prob 3) [0, 1, 2] = Inr v"
    using zero_batch_loss_returns
    by (cases "qa_loss (all_enabled 3) 0 (zero_logits 3) (zero_logits 3)
      [0, 0, 0] [0, 0, 0] (uniform_log_prob 3) [0, 1, 2]") simp_all
  have span: "\<not> isl (reweighted_span_loss (zero_logits 3) (zero_logits 3) [0, 0, 0] [0, 0, 0])"
    by (rule well_shaped_span_returns [OF zero_batch_shaped])
  note a = nan_report_events [of "all_enabled 3" NaN "zero_logits 3" "zero_logits 3"
      "[0, 0, 0]" "[0, 0, 0]" "uniform_log_prob 3" "same_output (uniform_log_prob 3)"
      "[0, 1, 2]" 0 v]
  note b = nan_report_events [of "all_enabled 3" NaN "zero_logits 3" "zero_logits 3"
      "[0, 0, 0]" "[0, 0, 0]" "uniform_log_prob 3" "same_output (uniform_log_prob 3)"
      "[0, 1, 5]" 0 _ ShapeError]
  from a span have "filter is_print (train_batch_events (all_enabled 3) NaN (zero_logits 3)
     (zero_logits 3) [0, 0, 0] [0, 0, 0] (uniform_log_prob 3)
     (same_output (uniform_log_prob 3)) [0, 1, 2]) = map Print nan_report"
    by (simp add: all_enabled_def)
  moreover from a v have "QaStep \<in> set (train_batch_events (all_enabled 3) NaN (zero_logits 3)
     (zero_logits 3) [0, 0, 0] [0, 0, 0] (uniform_log_prob 3)
     (same_output (uniform_log_prob 3)) [0, 1, 2])"
    by auto
  moreover from b mixed_batch_loss have "last (train_batch_events (all_enabled 3) NaN
     (zero_logits 3) (zero_logits 3) [0, 0, 0] [0, 0, 0] (uniform_log_prob 3)
     (same_output (uniform_log_prob 3)) [0, 1, 5]) = Raise ShapeError"
    by blast
  ultimately show ?thesis by blast
qed

text \<open>
  Two losses that are not finite and are not reported: one that is not a number while
  reweighting is disabled, and an infinite one while it is enabled.  The second batch is
  one whose start and end cross-entropy, at least \<open>2 ^ 128\<close> in exact arithmetic, are
  beyond the largest 32-bit floating-point number.
\<close>

theorem non_finite_loss_counterexample:
  "\<not> isfinite NaN \<and>
   filter is_print
     (train_batch_events ((all_enabled 3)\<lparr>enable_length_bp_penalty := False\<rparr>) NaN
        (zero_logits 3) (zero_logits 3) [0, 0, 0] [0, 0, 0] (uniform_log_prob 3)
        (same_output (uniform_log_prob 3)) [0, 1, 2]) = [] \<and>
   \<not> isfinite PosInf \<and>
   filter is_print
     (train_batch_events (all_enabled 3) PosInf spike_logits spike_logits [1] [1]
        (uniform_log_prob 1) (same_output (uniform_log_prob 1)) [0]) = []"
  by (simp add: events_prints all_enabled_def)

end
